theory Spec2Isabelle
  imports Main
begin

section \<open>Strings of the scraper\<close>

text \<open>
  A JavaScript string is a sequence of UTF-16 code units. It is modelled as a
  \<^typ>\<open>string\<close> whose characters are the code units U+0000 to U+00FF, so that
  \<^term>\<open>length\<close> is the \<^verbatim>\<open>.length\<close> of the source. The white space of
  \<^verbatim>\<open>trim()\<close> and of the regular expression class \<^verbatim>\<open>\s\<close> is, in that
  range, TAB, LF, VT, FF, CR, SPACE and NO-BREAK SPACE; \<^verbatim>\<open>\d\<close> is the ten ASCII
  digits.
\<close>

definition is_digit :: "char \<Rightarrow> bool" where
  "is_digit c \<longleftrightarrow> 48 \<le> (of_char c :: nat) \<and> (of_char c :: nat) \<le> 57"

definition digit_val :: "char \<Rightarrow> nat" where
  "digit_val c = of_char c - 48"

definition is_space :: "char \<Rightarrow> bool" where
  "is_space c \<longleftrightarrow> (of_char c :: nat) \<in> {9, 10, 11, 12, 13, 32, 160}"

definition trim :: "string \<Rightarrow> string" where
  "trim s = rev (dropWhile is_space (rev (dropWhile is_space s)))"

definition ascii_upper_letters :: string where
  "ascii_upper_letters = ''ABCDEFGHIJKLMNOPQRSTUVWXYZ''"

definition ascii_lower_letters :: string where
  "ascii_lower_letters = ''abcdefghijklmnopqrstuvwxyz''"

definition latin1_upper_letters :: string where
  "latin1_upper_letters =
     [CHR 0xC0, CHR 0xC1, CHR 0xC2, CHR 0xC3, CHR 0xC4, CHR 0xC5, CHR 0xC6, CHR 0xC7,
      CHR 0xC8, CHR 0xC9, CHR 0xCA, CHR 0xCB, CHR 0xCC, CHR 0xCD, CHR 0xCE, CHR 0xCF,
      CHR 0xD0, CHR 0xD1, CHR 0xD2, CHR 0xD3, CHR 0xD4, CHR 0xD5, CHR 0xD6,
      CHR 0xD8, CHR 0xD9, CHR 0xDA, CHR 0xDB, CHR 0xDC, CHR 0xDD, CHR 0xDE]"

definition latin1_lower_letters :: string where
  "latin1_lower_letters =
     [CHR 0xE0, CHR 0xE1, CHR 0xE2, CHR 0xE3, CHR 0xE4, CHR 0xE5, CHR 0xE6, CHR 0xE7,
      CHR 0xE8, CHR 0xE9, CHR 0xEA, CHR 0xEB, CHR 0xEC, CHR 0xED, CHR 0xEE, CHR 0xEF,
      CHR 0xF0, CHR 0xF1, CHR 0xF2, CHR 0xF3, CHR 0xF4, CHR 0xF5, CHR 0xF6,
      CHR 0xF8, CHR 0xF9, CHR 0xFA, CHR 0xFB, CHR 0xFC, CHR 0xFD, CHR 0xFE]"

text \<open>
  \<^verbatim>\<open>toLowerCase()\<close> on one code unit of the modelled range: the ASCII capitals and the
  Latin-1 capitals (U+00C0 to U+00DE without the multiplication sign U+00D7).
\<close>

definition lower_char :: "char \<Rightarrow> char" where
  "lower_char c =
     (case map_of (zip (ascii_upper_letters @ latin1_upper_letters)
                       (ascii_lower_letters @ latin1_lower_letters)) c of
        Some l \<Rightarrow> l
      | None \<Rightarrow> c)"

definition toLowerCase :: "string \<Rightarrow> string" where
  "toLowerCase s = map lower_char s"

text \<open>
  The \<^verbatim>\<open>i\<close> flag of a regular expression whose letters are all ASCII: a code unit
  of the input matches a pattern letter when it is that letter in either case. Matching
  with the flag is matching the pattern against the input with its ASCII capitals folded.
\<close>

definition fold_char :: "char \<Rightarrow> char" where
  "fold_char c =
     (case map_of (zip ascii_upper_letters ascii_lower_letters) c of
        Some l \<Rightarrow> l
      | None \<Rightarrow> c)"

definition ignoreCase :: "string \<Rightarrow> string" where
  "ignoreCase s = map fold_char s"

text \<open>
  \<^verbatim>\<open>parseInt\<close> of a run of decimal digits. The source's value is an IEEE double,
  equal to this natural number below \<open>2^53\<close>; from there on the double is a rounding
  of it that the language leaves to the implementation, and no comparison of the source
  (the test of the rating, the range of a Date) tells the two apart.
\<close>

definition parse_nat :: "string \<Rightarrow> nat" where
  "parse_nat ds = foldl (\<lambda>a c. 10 * a + digit_val c) 0 ds"

text \<open>
  \<^verbatim>\<open>s.match(/(\d+)/)\<close> followed by \<^verbatim>\<open>parseInt(m[1])\<close>: the leftmost maximal run of
  digits, \<^term>\<open>None\<close> when \<open>s\<close> has no digit.
\<close>

definition first_number :: "string \<Rightarrow> nat option" where
  "first_number s =
     (let r = dropWhile (\<lambda>c. \<not> is_digit c) s
      in if r = [] then None else Some (parse_nat (takeWhile is_digit r)))"

fun strip_prefix :: "string \<Rightarrow> string \<Rightarrow> string option" where
  "strip_prefix [] s = Some s"
| "strip_prefix (p # ps) [] = None"
| "strip_prefix (p # ps) (c # cs) = (if p = c then strip_prefix ps cs else None)"

text \<open>\<^verbatim>\<open>s.includes(p)\<close>.\<close>

fun str_includes :: "string \<Rightarrow> string \<Rightarrow> bool" where
  "str_includes [] p = (p = [])"
| "str_includes (c # cs) p = (strip_prefix p (c # cs) \<noteq> None \<or> str_includes cs p)"

text \<open>The pattern \<^verbatim>\<open>\s+\<close>: one or more white space, as many as there are.\<close>

definition spaces1 :: "string \<Rightarrow> string option" where
  "spaces1 s =
     (case s of
        [] \<Rightarrow> None
      | c # cs \<Rightarrow> if is_space c then Some (dropWhile is_space cs) else None)"

text \<open>An optional letter (\<^verbatim>\<open>s?\<close>, \<^verbatim>\<open>[n]?\<close>): taken when it is there.\<close>

definition optional :: "char \<Rightarrow> string \<Rightarrow> string" where
  "optional x s = (case s of [] \<Rightarrow> s | c # cs \<Rightarrow> if c = x then cs else s)"

subsection \<open>The relative-time patterns\<close>

datatype time_unit = Second | Minute | Hour | Day | Week | Month | Year

fun unit_name :: "time_unit \<Rightarrow> string" where
  "unit_name Second = ''second''"
| "unit_name Minute = ''minute''"
| "unit_name Hour = ''hour''"
| "unit_name Day = ''day''"
| "unit_name Week = ''week''"
| "unit_name Month = ''month''"
| "unit_name Year = ''year''"

text \<open>The alternation of \<^verbatim>\<open>parseRelativeDate\<close> and the shorter one of the extractor.\<close>

definition all_units :: "time_unit list" where
  "all_units = [Second, Minute, Hour, Day, Week, Month, Year]"

definition date_units :: "time_unit list" where
  "date_units = [Day, Week, Month, Year]"

text \<open>
  An alternation \<^verbatim>\<open>(second|minute|...)\<close> at the head of \<open>s\<close>, tried in order. No unit
  name is a prefix of another, so at most one alternative applies and the backtracking
  of the source's matcher cannot choose differently.
\<close>

fun match_unit :: "time_unit list \<Rightarrow> string \<Rightarrow> (time_unit \<times> string) option" where
  "match_unit [] s = None"
| "match_unit (u # us) s =
     (case strip_prefix (unit_name u) s of
        Some r \<Rightarrow> Some (u, r)
      | None \<Rightarrow> match_unit us s)"

text \<open>
  \<^verbatim>\<open>(\d+)\s+(unit)s?\s+ago\<close> matched at the head of \<open>s\<close>: the amount and the unit. Each
  greedy piece is followed by a piece that cannot start with what it gave up, so the
  greedy choice is the only one.
\<close>

definition plural_at :: "time_unit list \<Rightarrow> string \<Rightarrow> (nat \<times> time_unit) option" where
  "plural_at us s =
     (let ds = takeWhile is_digit s
      in if ds = [] then None
         else case spaces1 (dropWhile is_digit s) of
                None \<Rightarrow> None
              | Some r1 \<Rightarrow>
                 (case match_unit us r1 of
                    None \<Rightarrow> None
                  | Some (u, r2) \<Rightarrow>
                     (case spaces1 (optional (CHR ''s'') r2) of
                        None \<Rightarrow> None
                      | Some r3 \<Rightarrow>
                         (case strip_prefix ''ago'' r3 of
                            None \<Rightarrow> None
                          | Some r4 \<Rightarrow> Some (parse_nat ds, u)))))"

text \<open>The unanchored search of \<^verbatim>\<open>match\<close> and \<^verbatim>\<open>test\<close>: the leftmost position that matches.\<close>

fun plural_search :: "time_unit list \<Rightarrow> string \<Rightarrow> (nat \<times> time_unit) option" where
  "plural_search us [] = None"
| "plural_search us (c # cs) =
     (case plural_at us (c # cs) of
        Some r \<Rightarrow> Some r
      | None \<Rightarrow> plural_search us cs)"

text \<open>\<^verbatim>\<open>^a[n]?\s+(unit)\s+ago$\<close> against the whole of \<open>s\<close>.\<close>

definition single_match :: "time_unit list \<Rightarrow> string \<Rightarrow> time_unit option" where
  "single_match us s =
     (case strip_prefix ''a'' s of
        None \<Rightarrow> None
      | Some r0 \<Rightarrow>
         (case spaces1 (optional (CHR ''n'') r0) of
            None \<Rightarrow> None
          | Some r1 \<Rightarrow>
             (case match_unit us r1 of
                None \<Rightarrow> None
              | Some (u, r2) \<Rightarrow>
                 (case spaces1 r2 of
                    None \<Rightarrow> None
                  | Some r3 \<Rightarrow> if r3 = ''ago'' then Some u else None))))"

text \<open>
  \<^verbatim>\<open>(\d+)\s+review\<close> searched in \<open>s\<close> (the caller folds the case for the \<^verbatim>\<open>i\<close> flag):
  the number of the leftmost match.
\<close>

definition review_count_at :: "string \<Rightarrow> nat option" where
  "review_count_at s =
     (let ds = takeWhile is_digit s
      in if ds = [] then None
         else case spaces1 (dropWhile is_digit s) of
                None \<Rightarrow> None
              | Some r1 \<Rightarrow>
                 (case strip_prefix ''review'' r1 of
                    None \<Rightarrow> None
                  | Some r2 \<Rightarrow> Some (parse_nat ds)))"

fun review_count_search :: "string \<Rightarrow> nat option" where
  "review_count_search [] = None"
| "review_count_search (c # cs) =
     (case review_count_at (c # cs) of
        Some n \<Rightarrow> Some n
      | None \<Rightarrow> review_count_search cs)"

subsection \<open>Decimal rendering\<close>

definition digit_char :: "nat \<Rightarrow> char" where
  "digit_char n = ''0123456789'' ! (n mod 10)"

fun show_nat :: "nat \<Rightarrow> string" where
  "show_nat n = (if n < 10 then [digit_char n] else show_nat (n div 10) @ [digit_char n])"

definition show_int :: "int \<Rightarrow> string" where
  "show_int i = (if i < 0 then ''-'' @ show_nat (nat (- i)) else show_nat (nat i))"

definition pad_left :: "nat \<Rightarrow> string \<Rightarrow> string" where
  "pad_left w s = replicate (w - length s) (CHR ''0'') @ s"

section \<open>The Date of the runtime\<close>

text \<open>
  \<^verbatim>\<open>parseRelativeDate\<close> works on a \<^verbatim>\<open>Date\<close> object: \<^verbatim>\<open>new Date()\<close> reads the clock,
  one setter of the local-time family moves it, \<^verbatim>\<open>toISOString()\<close> renders it. The
  operations below are those of the ECMAScript specification (section "Date Objects"),
  over integers: a time value is a number of milliseconds since 1970-01-01T00:00:00Z.
  Every intermediate value of a computation whose result is a time value in range is
  below \<open>2^53\<close>, where the doubles of the source are exact. The getters and setters
  of the source work in the local time of the runtime; its time zone is the parameter
  \<open>tz\<close> of everything that reads the clock.
\<close>

definition msPerSecond :: int where "msPerSecond = 1000"
definition msPerMinute :: int where "msPerMinute = 60000"
definition msPerHour :: int where "msPerHour = 3600000"
definition msPerDay :: int where "msPerDay = 86400000"

definition Day_number :: "int \<Rightarrow> int" where
  "Day_number t = t div msPerDay"

definition TimeWithinDay :: "int \<Rightarrow> int" where
  "TimeWithinDay t = t mod msPerDay"

definition DaysInYear :: "int \<Rightarrow> int" where
  "DaysInYear y =
     (if y mod 4 \<noteq> 0 then 365
      else if y mod 100 \<noteq> 0 then 366
      else if y mod 400 \<noteq> 0 then 365
      else 366)"

definition DayFromYear :: "int \<Rightarrow> int" where
  "DayFromYear y =
     365 * (y - 1970) + (y - 1969) div 4 - (y - 1901) div 100 + (y - 1601) div 400"

text \<open>
  \<^verbatim>\<open>YearFromTime(t)\<close> is the largest year whose first day is not after the day of \<open>t\<close>.
  It is found from the estimate \<open>1970 + d div 365\<close> by counting down to a year that is
  not after the day and then up to the last such year; both counts end because the
  first days of successive years are at least 364 days apart.
\<close>

function year_down :: "int \<Rightarrow> int \<Rightarrow> int" where
  "year_down d y = (if d < DayFromYear y then year_down d (y - 1) else y)"
  by pat_completeness auto
termination
proof (relation "measure (\<lambda>(d, y). nat (DayFromYear y - d))")
  show "wf (measure (\<lambda>(d, y). nat (DayFromYear y - d)))"
    by simp
next
  fix d y :: int
  assume lt: "d < DayFromYear y"
  have a: "(y - 1 - 1969) div 4 \<le> (y - 1969) div 4"
    by (rule zdiv_mono1) simp_all
  have "(y - 1901) div 100 \<le> (y - 1 - 1901 + 100) div 100"
    by (rule zdiv_mono1) simp_all
  then have b: "(y - 1901) div 100 \<le> (y - 1 - 1901) div 100 + 1"
    by simp
  have c: "(y - 1 - 1601) div 400 \<le> (y - 1601) div 400"
    by (rule zdiv_mono1) simp_all
  have "DayFromYear (y - 1) < DayFromYear y"
    using a b c by (simp add: DayFromYear_def)
  with lt show "((d, y - 1), (d, y)) \<in> measure (\<lambda>(d, y). nat (DayFromYear y - d))"
    by simp
qed

function year_up :: "int \<Rightarrow> int \<Rightarrow> int" where
  "year_up d y = (if DayFromYear (y + 1) \<le> d then year_up d (y + 1) else y)"
  by pat_completeness auto
termination
proof (relation "measure (\<lambda>(d, y). nat (d - DayFromYear (y + 1) + 1))")
  show "wf (measure (\<lambda>(d, y). nat (d - DayFromYear (y + 1) + 1)))"
    by simp
next
  fix d y :: int
  assume le: "DayFromYear (y + 1) \<le> d"
  have a: "(y + 1 - 1969) div 4 \<le> (y + 2 - 1969) div 4"
    by (rule zdiv_mono1) simp_all
  have "(y + 2 - 1901) div 100 \<le> (y + 1 - 1901 + 100) div 100"
    by (rule zdiv_mono1) simp_all
  then have b: "(y + 2 - 1901) div 100 \<le> (y + 1 - 1901) div 100 + 1"
    by simp
  have c: "(y + 1 - 1601) div 400 \<le> (y + 2 - 1601) div 400"
    by (rule zdiv_mono1) simp_all
  have "DayFromYear (y + 1) < DayFromYear (y + 1 + 1)"
    using a b c by (simp add: DayFromYear_def)
  with le show "((d, y + 1), (d, y)) \<in> measure (\<lambda>(d, y). nat (d - DayFromYear (y + 1) + 1))"
    by simp
qed

declare year_down.simps [simp del] year_up.simps [simp del]

definition YearFromDay :: "int \<Rightarrow> int" where
  "YearFromDay d = year_up d (year_down d (1970 + d div 365))"

definition YearFromTime :: "int \<Rightarrow> int" where
  "YearFromTime t = YearFromDay (Day_number t)"

definition InLeapYear :: "int \<Rightarrow> int" where
  "InLeapYear t = (if DaysInYear (YearFromTime t) = 366 then 1 else 0)"

definition DayWithinYear :: "int \<Rightarrow> int" where
  "DayWithinYear t = Day_number t - DayFromYear (YearFromTime t)"

text \<open>The month (0 to 11) of a day within the year, and the first day of each month.\<close>

definition month_of_day :: "int \<Rightarrow> int \<Rightarrow> int" where
  "month_of_day dwy leap =
     (if dwy < 31 then 0
      else if dwy < 59 + leap then 1
      else if dwy < 90 + leap then 2
      else if dwy < 120 + leap then 3
      else if dwy < 151 + leap then 4
      else if dwy < 181 + leap then 5
      else if dwy < 212 + leap then 6
      else if dwy < 243 + leap then 7
      else if dwy < 273 + leap then 8
      else if dwy < 304 + leap then 9
      else if dwy < 334 + leap then 10
      else 11)"

definition month_start :: "int \<Rightarrow> int \<Rightarrow> int" where
  "month_start m leap =
     (if m = 0 then 0
      else if m = 1 then 31
      else if m = 2 then 59 + leap
      else if m = 3 then 90 + leap
      else if m = 4 then 120 + leap
      else if m = 5 then 151 + leap
      else if m = 6 then 181 + leap
      else if m = 7 then 212 + leap
      else if m = 8 then 243 + leap
      else if m = 9 then 273 + leap
      else if m = 10 then 304 + leap
      else 334 + leap)"

definition MonthFromTime :: "int \<Rightarrow> int" where
  "MonthFromTime t = month_of_day (DayWithinYear t) (InLeapYear t)"

definition DateFromTime :: "int \<Rightarrow> int" where
  "DateFromTime t = DayWithinYear t - month_start (MonthFromTime t) (InLeapYear t) + 1"

definition HourFromTime :: "int \<Rightarrow> int" where
  "HourFromTime t = (t div msPerHour) mod 24"

definition MinFromTime :: "int \<Rightarrow> int" where
  "MinFromTime t = (t div msPerMinute) mod 60"

definition SecFromTime :: "int \<Rightarrow> int" where
  "SecFromTime t = (t div msPerSecond) mod 60"

definition msFromTime :: "int \<Rightarrow> int" where
  "msFromTime t = t mod msPerSecond"

definition MakeTime :: "int \<Rightarrow> int \<Rightarrow> int \<Rightarrow> int \<Rightarrow> int" where
  "MakeTime hour minute sec ms = hour * msPerHour + minute * msPerMinute + sec * msPerSecond + ms"

text \<open>
  \<^verbatim>\<open>MakeDay(year, month, date)\<close>: the month may lie outside 0 to 11 and carries into the
  year; the date may lie outside the month and counts days from its first.
\<close>

definition MakeDay :: "int \<Rightarrow> int \<Rightarrow> int \<Rightarrow> int" where
  "MakeDay year month date =
     (let ym = year + month div 12;
          mn = month mod 12;
          leap = (if DaysInYear ym = 366 then 1 else 0)
      in DayFromYear ym + month_start mn leap + date - 1)"

definition MakeDate :: "int \<Rightarrow> int \<Rightarrow> int" where
  "MakeDate day time = day * msPerDay + time"

text \<open>\<^verbatim>\<open>TimeClip\<close>: a time outside the range of a Date is \<^verbatim>\<open>NaN\<close>, here \<^term>\<open>None\<close>.\<close>

definition maxTime :: int where "maxTime = 8640000000000000"

definition TimeClip :: "int \<Rightarrow> int option" where
  "TimeClip t = (if \<bar>t\<bar> > maxTime then None else Some t)"

text \<open>
  The time zone of the runtime, as the two offsets (in milliseconds) that ECMAScript
  takes from it: \<open>utc_offset tz t\<close> is the offset of local time in force at the instant
  \<open>t\<close> (\<^verbatim>\<open>LocalTZA(t, true)\<close>), and \<open>local_offset tz t\<close> is the offset by which the
  local time value \<open>t\<close> is read as an instant (\<^verbatim>\<open>LocalTZA(t, false)\<close>). Where the offset
  of the zone changes (daylight saving), a local time that occurs twice or not at all
  is read with the offset before the change. The table of the zone belongs to the
  runtime, so both offsets are parameters.
\<close>

record zone =
  utc_offset :: "int \<Rightarrow> int"
  local_offset :: "int \<Rightarrow> int"

definition LocalTime :: "zone \<Rightarrow> int \<Rightarrow> int" where
  "LocalTime tz t = t + utc_offset tz t"

definition UTC_time :: "zone \<Rightarrow> int \<Rightarrow> int" where
  "UTC_time tz t = t - local_offset tz t"

subsection \<open>Getters and setters\<close>

definition getSeconds :: "zone \<Rightarrow> int \<Rightarrow> int" where
  "getSeconds tz t = SecFromTime (LocalTime tz t)"

definition getMinutes :: "zone \<Rightarrow> int \<Rightarrow> int" where
  "getMinutes tz t = MinFromTime (LocalTime tz t)"

definition getHours :: "zone \<Rightarrow> int \<Rightarrow> int" where
  "getHours tz t = HourFromTime (LocalTime tz t)"

definition getDate :: "zone \<Rightarrow> int \<Rightarrow> int" where
  "getDate tz t = DateFromTime (LocalTime tz t)"

definition getMonth :: "zone \<Rightarrow> int \<Rightarrow> int" where
  "getMonth tz t = MonthFromTime (LocalTime tz t)"

definition getFullYear :: "zone \<Rightarrow> int \<Rightarrow> int" where
  "getFullYear tz t = YearFromTime (LocalTime tz t)"

definition setSeconds :: "zone \<Rightarrow> int \<Rightarrow> int \<Rightarrow> int option" where
  "setSeconds tz sec t =
     (let lt = LocalTime tz t
      in TimeClip (UTC_time tz (MakeDate (Day_number lt)
           (MakeTime (HourFromTime lt) (MinFromTime lt) sec (msFromTime lt)))))"

definition setMinutes :: "zone \<Rightarrow> int \<Rightarrow> int \<Rightarrow> int option" where
  "setMinutes tz minute t =
     (let lt = LocalTime tz t
      in TimeClip (UTC_time tz (MakeDate (Day_number lt)
           (MakeTime (HourFromTime lt) minute (SecFromTime lt) (msFromTime lt)))))"

definition setHours :: "zone \<Rightarrow> int \<Rightarrow> int \<Rightarrow> int option" where
  "setHours tz hour t =
     (let lt = LocalTime tz t
      in TimeClip (UTC_time tz (MakeDate (Day_number lt)
           (MakeTime hour (MinFromTime lt) (SecFromTime lt) (msFromTime lt)))))"

definition setDate :: "zone \<Rightarrow> int \<Rightarrow> int \<Rightarrow> int option" where
  "setDate tz date t =
     (let lt = LocalTime tz t
      in TimeClip (UTC_time tz (MakeDate
           (MakeDay (YearFromTime lt) (MonthFromTime lt) date) (TimeWithinDay lt))))"

definition setMonth :: "zone \<Rightarrow> int \<Rightarrow> int \<Rightarrow> int option" where
  "setMonth tz month t =
     (let lt = LocalTime tz t
      in TimeClip (UTC_time tz (MakeDate
           (MakeDay (YearFromTime lt) month (DateFromTime lt)) (TimeWithinDay lt))))"

definition setFullYear :: "zone \<Rightarrow> int \<Rightarrow> int \<Rightarrow> int option" where
  "setFullYear tz year t =
     (let lt = LocalTime tz t
      in TimeClip (UTC_time tz (MakeDate
           (MakeDay year (MonthFromTime lt) (DateFromTime lt)) (TimeWithinDay lt))))"

subsection \<open>Rendering\<close>

datatype js_error = RangeError

text \<open>
  The year of \<^verbatim>\<open>toISOString\<close>: four digits from 0 to 9999, otherwise a sign and six
  digits.
\<close>

definition iso_year :: "int \<Rightarrow> string" where
  "iso_year y =
     (if 0 \<le> y \<and> y \<le> 9999 then pad_left 4 (show_nat (nat y))
      else (if y < 0 then ''-'' else ''+'') @ pad_left 6 (show_nat (nat \<bar>y\<bar>)))"

definition iso_string :: "int \<Rightarrow> string" where
  "iso_string t =
     iso_year (YearFromTime t) @ ''-'' @
     pad_left 2 (show_nat (nat (MonthFromTime t + 1))) @ ''-'' @
     pad_left 2 (show_nat (nat (DateFromTime t))) @ ''T'' @
     pad_left 2 (show_nat (nat (HourFromTime t))) @ '':'' @
     pad_left 2 (show_nat (nat (MinFromTime t))) @ '':'' @
     pad_left 2 (show_nat (nat (SecFromTime t))) @ ''.'' @
     pad_left 3 (show_nat (nat (msFromTime t))) @ ''Z''"

text \<open>\<^verbatim>\<open>toISOString()\<close> throws a \<^verbatim>\<open>RangeError\<close> on an invalid Date.\<close>

definition toISOString :: "int option \<Rightarrow> js_error + string" where
  "toISOString d = (case d of None \<Rightarrow> Inl RangeError | Some t \<Rightarrow> Inr (iso_string t))"

section \<open>parseRelativeDate\<close>

text \<open>
  The Date after the \<^verbatim>\<open>switch\<close> of the first branch (\<open>amount\<close> parsed from the text)
  and of the second branch (an article for the amount); \<open>now\<close> is the reading of the
  clock by \<^verbatim>\<open>new Date()\<close>. An amount of \<open>2^53\<close> or more, where \<^verbatim>\<open>parseInt\<close> rounds,
  takes every unit out of the range of a Date, in the source as here.
\<close>

fun subtract_amount :: "zone \<Rightarrow> time_unit \<Rightarrow> int \<Rightarrow> int \<Rightarrow> int option" where
  "subtract_amount tz Second amount now = setSeconds tz (getSeconds tz now - amount) now"
| "subtract_amount tz Minute amount now = setMinutes tz (getMinutes tz now - amount) now"
| "subtract_amount tz Hour amount now = setHours tz (getHours tz now - amount) now"
| "subtract_amount tz Day amount now = setDate tz (getDate tz now - amount) now"
| "subtract_amount tz Week amount now = setDate tz (getDate tz now - amount * 7) now"
| "subtract_amount tz Month amount now = setMonth tz (getMonth tz now - amount) now"
| "subtract_amount tz Year amount now = setFullYear tz (getFullYear tz now - amount) now"

fun subtract_one :: "zone \<Rightarrow> time_unit \<Rightarrow> int \<Rightarrow> int option" where
  "subtract_one tz Second now = setSeconds tz (getSeconds tz now - 1) now"
| "subtract_one tz Minute now = setMinutes tz (getMinutes tz now - 1) now"
| "subtract_one tz Hour now = setHours tz (getHours tz now - 1) now"
| "subtract_one tz Day now = setDate tz (getDate tz now - 1) now"
| "subtract_one tz Week now = setDate tz (getDate tz now - 7) now"
| "subtract_one tz Month now = setMonth tz (getMonth tz now - 1) now"
| "subtract_one tz Year now = setFullYear tz (getFullYear tz now - 1) now"

text \<open>
  The Date that \<^verbatim>\<open>parseRelativeDate(text)\<close> renders, as a time value: \<^term>\<open>None\<close> is
  the invalid Date.
\<close>

definition relative_instant :: "zone \<Rightarrow> string \<Rightarrow> int \<Rightarrow> int option" where
  "relative_instant tz txt now =
     (let lower = trim (toLowerCase txt)
      in case plural_search all_units lower of
           Some (amount, u) \<Rightarrow> subtract_amount tz u (int amount) now
         | None \<Rightarrow>
            (case single_match all_units lower of
               Some u \<Rightarrow> subtract_one tz u now
             | None \<Rightarrow> Some now))"

definition parseRelativeDate :: "zone \<Rightarrow> string \<Rightarrow> int \<Rightarrow> js_error + string" where
  "parseRelativeDate tz txt now = toISOString (relative_instant tz txt now)"

section \<open>The field extractor\<close>

text \<open>
  A review card is a DOM element; the extractor reads it only through the queries
  below, so a card is modelled as the record of what each query returns. A text field is
  the \<^verbatim>\<open>textContent\<close> of the first element that matches the selector, \<^term>\<open>None\<close>
  when none matches. \<open>main.ts\<close> and the older script (the second, unnamed source
  file) query some fields with different selectors; those have a field each.
\<close>

record response_el =
  respText :: "string option"         \<comment> \<open>\<^verbatim>\<open>div.wiI7pd, span.wiI7pd\<close> (main.ts)\<close>
  respText_div :: "string option"     \<comment> \<open>\<^verbatim>\<open>div.wiI7pd\<close> (older script)\<close>
  respDate :: "string option"         \<comment> \<open>\<^verbatim>\<open>span.DZSIDd\<close>\<close>

record rating_row =
  row_label :: "string option"          \<comment> \<open>text of the row's first \<^verbatim>\<open>span\<close>\<close>
  row_rating :: "string option option"  \<comment> \<open>\<^verbatim>\<open>span[role="img"]\<close> and its \<^verbatim>\<open>aria-label\<close>\<close>

record card =
  data_review_id :: "string option"   \<comment> \<open>\<^verbatim>\<open>getAttribute("data-review-id")\<close>\<close>
  starEl :: "string option"           \<comment> \<open>\<^verbatim>\<open>aria-label\<close> of \<^verbatim>\<open>[role="img"][aria-label*="star" i]\<close>\<close>
  starEl_span :: "string option"      \<comment> \<open>\<^verbatim>\<open>aria-label\<close> of \<^verbatim>\<open>span[role="img"][aria-label*="star"]\<close>\<close>
  filledStars :: nat                  \<comment> \<open>number of \<^verbatim>\<open>img[src*="star_yellow"], span.hCCjke.google-symbols\<close>\<close>
  name_d4r55 :: "string option"       \<comment> \<open>\<^verbatim>\<open>div.d4r55\<close>\<close>
  name_contrib :: "string option"     \<comment> \<open>\<^verbatim>\<open>a[href*="/contrib/"] div\<close>\<close>
  name_button :: "string option"      \<comment> \<open>\<^verbatim>\<open>button[data-review-id] div\<close>\<close>
  firstLink :: "string option"        \<comment> \<open>\<^verbatim>\<open>a\<close>\<close>
  dateEl :: "string option"           \<comment> \<open>\<^verbatim>\<open>span.rsqaWe\<close>\<close>
  spans :: "string list"              \<comment> \<open>every \<^verbatim>\<open>span\<close>, in document order\<close>
  textEl :: "string option"           \<comment> \<open>\<^verbatim>\<open>span.wiI7pd\<close>, else \<^verbatim>\<open>div.MyEned span\<close>\<close>
  responseContainer :: "response_el option"  \<comment> \<open>\<^verbatim>\<open>div.CDe7pd\<close>\<close>
  likesEl :: "string option"          \<comment> \<open>\<^verbatim>\<open>span.pkWtMe\<close>\<close>
  infoSpans :: "string list"          \<comment> \<open>every \<^verbatim>\<open>div.RfnDt span\<close>\<close>
  ratingRows :: "rating_row list"     \<comment> \<open>every \<^verbatim>\<open>div.k1MNkf, div[class*="PBBkOb"]\<close>\<close>

text \<open>
  The object the extractor pushes for a card. \<open>main.ts\<close> leaves
  \<^verbatim>\<open>reviewDetailedRating\<close> out of it (here \<^term>\<open>None\<close>).
\<close>

record raw_review =
  raw_reviewId :: string
  raw_name :: string
  raw_stars :: nat
  raw_dateText :: string
  raw_text :: "string option"
  raw_responseFromOwnerText :: "string option"
  raw_responseFromOwnerDate :: "string option"
  raw_likesCount :: nat
  raw_reviewDetailedRating :: "(string \<times> nat) list option"
  raw_reviewerNumberOfReviews :: "nat option"
  raw_isLocalGuide :: bool

text \<open>\<^verbatim>\<open>a || b\<close> on two query results.\<close>

definition or_else :: "'a option \<Rightarrow> 'a option \<Rightarrow> 'a option" where
  "or_else a b = (case a of Some x \<Rightarrow> Some x | None \<Rightarrow> b)"

text \<open>\<^verbatim>\<open>el.textContent?.trim() || null\<close>.\<close>

definition trim_or_null :: "string \<Rightarrow> string option" where
  "trim_or_null t = (let s = trim t in if s = [] then None else Some s)"

text \<open>The number in a label: \<^verbatim>\<open>label.match(/(\d+)/)\<close>, 0 when the variable keeps its initial value.\<close>

definition number_or_zero :: "string option \<Rightarrow> nat" where
  "number_or_zero el =
     (case el of
        None \<Rightarrow> 0
      | Some lbl \<Rightarrow> (case first_number lbl of None \<Rightarrow> 0 | Some n \<Rightarrow> n))"

subsection \<open>Fields of main.ts\<close>

text \<open>
  The identity: the card's attribute, else \<^verbatim>\<open>`g-${idx}-${Date.now()}`\<close> from the
  position of the card and the reading \<open>clock\<close> of the wall clock.
\<close>

definition synthetic_id :: "nat \<Rightarrow> int \<Rightarrow> string" where
  "synthetic_id idx clock = ''g-'' @ show_nat idx @ ''-'' @ show_int clock"

definition resolve_reviewId :: "nat \<Rightarrow> int \<Rightarrow> card \<Rightarrow> string" where
  "resolve_reviewId idx clock c =
     (case data_review_id c of
        None \<Rightarrow> synthetic_id idx clock
      | Some a \<Rightarrow> if a = [] then synthetic_id idx clock else a)"

definition resolve_stars :: "card \<Rightarrow> nat" where
  "resolve_stars c = number_or_zero (starEl c)"

definition nameEl :: "card \<Rightarrow> string option" where
  "nameEl c = or_else (name_d4r55 c) (or_else (name_contrib c) (name_button c))"

definition resolve_name :: "card \<Rightarrow> string" where
  "resolve_name c =
     (let name0 =
            (case nameEl c of
               None \<Rightarrow> ''Anonymous''
             | Some t \<Rightarrow>
                 (let n = trim t
                  in if length n > 0 \<and> length n < 80 then n else ''Anonymous''))
      in if name0 = ''Anonymous''
         then (case firstLink c of
                 None \<Rightarrow> name0
               | Some t \<Rightarrow>
                   (let n = trim t
                    in if length n > 1 \<and> length n < 60 then n else name0))
         else name0)"

text \<open>The two tests of the date fallback, both with the \<^verbatim>\<open>i\<close> flag.\<close>

definition date_like :: "string \<Rightarrow> bool" where
  "date_like t \<longleftrightarrow>
     plural_search date_units (ignoreCase t) \<noteq> None \<or>
     single_match date_units (ignoreCase t) \<noteq> None"

definition resolve_dateText :: "card \<Rightarrow> string" where
  "resolve_dateText c =
     (let dateText = (case dateEl c of None \<Rightarrow> [] | Some t \<Rightarrow> trim t)
      in if dateText = []
         then (case find date_like (map trim (spans c)) of
                 Some t \<Rightarrow> t
               | None \<Rightarrow> dateText)
         else dateText)"

definition textEl_text :: "card \<Rightarrow> string option" where
  "textEl_text c =
     (case textEl c of
        None \<Rightarrow> None
      | Some t \<Rightarrow> (let t' = trim t in if length t' > 0 then Some t' else None))"

text \<open>One round of the loop that keeps the longest span of more than 30 code units.\<close>

definition longest_step :: "string option \<times> nat \<Rightarrow> string \<Rightarrow> string option \<times> nat" where
  "longest_step acc s =
     (let t = trim s
      in if length t > snd acc \<and> length t > 30 then (Some t, length t) else acc)"

definition resolve_text :: "card \<Rightarrow> string option" where
  "resolve_text c =
     (let t0 = textEl_text c
      in if t0 = None then fst (foldl longest_step (t0, 0) (spans c)) else t0)"

definition resolve_likes :: "card \<Rightarrow> nat" where
  "resolve_likes c = number_or_zero (likesEl c)"

text \<open>
  One round of the reviewer-info loop: the last element with a count sets the count,
  any element with the marker sets the flag. \<open>ci\<close> is the \<^verbatim>\<open>i\<close> flag of the count pattern.
\<close>

definition info_step :: "bool \<Rightarrow> nat option \<times> bool \<Rightarrow> string \<Rightarrow> nat option \<times> bool" where
  "info_step ci acc el =
     (let t = trim el
      in (case review_count_search (if ci then ignoreCase t else t) of
            Some n \<Rightarrow> Some n
          | None \<Rightarrow> fst acc,
          snd acc \<or> str_includes t ''Local Guide''))"

text \<open>
  The card of \<open>main.ts\<close>: a record when the rating is 1 to 5, nothing otherwise. The
  selector list \<^verbatim>\<open>div.RfnDt span, span\<close> of its reviewer-info loop matches every span.
\<close>

definition extractCard :: "nat \<Rightarrow> int \<Rightarrow> card \<Rightarrow> raw_review option" where
  "extractCard idx clock c =
     (let reviewId = resolve_reviewId idx clock c;
          stars = resolve_stars c;
          name = resolve_name c;
          dateText = resolve_dateText c;
          txt = resolve_text c;
          responseFromOwnerText =
            (case responseContainer c of
               None \<Rightarrow> None
             | Some r \<Rightarrow> (case respText r of None \<Rightarrow> None | Some t \<Rightarrow> trim_or_null t));
          responseFromOwnerDate =
            (case responseContainer c of
               None \<Rightarrow> None
             | Some r \<Rightarrow> (case respDate r of None \<Rightarrow> None | Some t \<Rightarrow> trim_or_null t));
          likesCount = resolve_likes c;
          info = foldl (info_step True) (None, False) (spans c)
      in if stars \<ge> 1 \<and> stars \<le> 5
         then Some \<lparr>raw_reviewId = reviewId, raw_name = name, raw_stars = stars,
                     raw_dateText = dateText, raw_text = txt,
                     raw_responseFromOwnerText = responseFromOwnerText,
                     raw_responseFromOwnerDate = responseFromOwnerDate,
                     raw_likesCount = likesCount, raw_reviewDetailedRating = None,
                     raw_reviewerNumberOfReviews = fst info, raw_isLocalGuide = snd info\<rparr>
         else None)"

text \<open>
  \<^verbatim>\<open>cards.forEach((card, idx) => ...)\<close>: the records of the cards that yield one, in
  document order; \<open>clock idx\<close> is the wall clock while card \<open>idx\<close> is read.
\<close>

definition extractCards :: "(nat \<Rightarrow> int) \<Rightarrow> card list \<Rightarrow> raw_review list" where
  "extractCards clock cards =
     List.map_filter (\<lambda>(idx, c). extractCard idx (clock idx) c) (zip [0..<length cards] cards)"

subsection \<open>Fields of the older script\<close>

definition resolve_stars_legacy :: "card \<Rightarrow> nat" where
  "resolve_stars_legacy c =
     (let stars = number_or_zero (starEl_span c)
      in if stars = 0
         then (if filledStars c \<ge> 1 \<and> filledStars c \<le> 5 then filledStars c else stars)
         else stars)"

text \<open>
  Its two name queries: \<^verbatim>\<open>div.d4r55, button.WEBjve div.d4r55\<close>, whose second part is
  within the first, then \<^verbatim>\<open>a[href*="/contrib/"] div, button[data-review-id] div.d4r55\<close>,
  whose second part has no match once the first query had none.
\<close>

definition nameEl_legacy :: "card \<Rightarrow> string option" where
  "nameEl_legacy c = or_else (name_d4r55 c) (name_contrib c)"

definition resolve_name_legacy :: "card \<Rightarrow> string" where
  "resolve_name_legacy c =
     (case nameEl_legacy c of
        None \<Rightarrow> ''Anonymous''
      | Some t \<Rightarrow>
          (let n = trim t
           in if length n > 0 \<and> length n < 80 then n else ''Anonymous''))"

text \<open>
  \<^verbatim>\<open>obj[label] = n\<close> on a plain object, kept as the list of its entries in the order
  \<^verbatim>\<open>Object.keys\<close> gives them: the keys that are array indices (canonical decimal
  numerals up to \<open>2^32 - 2\<close>) in ascending order, then the other keys in the order of
  their creation. A write to an existing key replaces its value in place. A number
  written to the key \<^verbatim>\<open>__proto__\<close> creates no entry.
\<close>

definition is_array_index :: "string \<Rightarrow> bool" where
  "is_array_index k \<longleftrightarrow>
     k \<noteq> [] \<and> list_all is_digit k \<and> (k = ''0'' \<or> hd k \<noteq> CHR ''0'') \<and>
     length k \<le> 10 \<and> parse_nat k \<le> 4294967294"

fun replace_value :: "string \<Rightarrow> nat \<Rightarrow> (string \<times> nat) list \<Rightarrow> (string \<times> nat) list" where
  "replace_value k v [] = []"
| "replace_value k v ((k', v') # kvs) =
     (if k = k' then (k, v) # kvs else (k', v') # replace_value k v kvs)"

fun insert_index :: "string \<Rightarrow> nat \<Rightarrow> (string \<times> nat) list \<Rightarrow> (string \<times> nat) list" where
  "insert_index k v [] = [(k, v)]"
| "insert_index k v ((k', v') # kvs) =
     (if is_array_index k' \<and> parse_nat k' < parse_nat k
      then (k', v') # insert_index k v kvs
      else (k, v) # (k', v') # kvs)"

definition assign :: "string \<Rightarrow> nat \<Rightarrow> (string \<times> nat) list \<Rightarrow> (string \<times> nat) list" where
  "assign k v obj =
     (if k = ''__proto__'' then obj
      else if k \<in> fst ` set obj then replace_value k v obj
      else if is_array_index k then insert_index k v obj
      else obj @ [(k, v)])"

definition rating_step :: "(string \<times> nat) list \<Rightarrow> rating_row \<Rightarrow> (string \<times> nat) list" where
  "rating_step obj row =
     (let label = (case row_label row of None \<Rightarrow> [] | Some t \<Rightarrow> trim t)
      in case row_rating row of
           None \<Rightarrow> obj
         | Some None \<Rightarrow> obj
         | Some (Some a) \<Rightarrow>
             (case first_number a of
                None \<Rightarrow> obj
              | Some n \<Rightarrow> if label \<noteq> [] then assign label n obj else obj))"

definition resolve_detailed :: "card \<Rightarrow> (string \<times> nat) list option" where
  "resolve_detailed c =
     (if length (ratingRows c) > 0
      then (let obj = foldl rating_step [] (ratingRows c)
            in if length obj = 0 then None else Some obj)
      else None)"

text \<open>
  The card of the older script. A card whose \<^verbatim>\<open>data-review-id\<close> is missing or empty
  is left at once (\<^verbatim>\<open>if (!reviewId) return\<close>); the name has no link fallback, the text
  no span fallback, and the reviewer-info loop reads \<^verbatim>\<open>div.RfnDt span\<close> without the
  \<^verbatim>\<open>i\<close> flag.
\<close>

definition extractCard_legacy :: "card \<Rightarrow> raw_review option" where
  "extractCard_legacy c =
     (let reviewId = (case data_review_id c of None \<Rightarrow> [] | Some a \<Rightarrow> a)
      in if reviewId = [] then None
         else
          (let stars = resolve_stars_legacy c;
               name = resolve_name_legacy c;
               dateText = resolve_dateText c;
               txt = textEl_text c;
               responseFromOwnerText =
                 (case responseContainer c of
                    None \<Rightarrow> None
                  | Some r \<Rightarrow> (case respText_div r of None \<Rightarrow> None | Some t \<Rightarrow> trim_or_null t));
               responseFromOwnerDate =
                 (case responseContainer c of
                    None \<Rightarrow> None
                  | Some r \<Rightarrow> (case respDate r of None \<Rightarrow> None | Some t \<Rightarrow> trim_or_null t));
               likesCount = resolve_likes c;
               reviewDetailedRating = resolve_detailed c;
               info = foldl (info_step False) (None, False) (infoSpans c)
           in if stars \<ge> 1 \<and> stars \<le> 5
              then Some \<lparr>raw_reviewId = reviewId, raw_name = name, raw_stars = stars,
                          raw_dateText = dateText, raw_text = txt,
                          raw_responseFromOwnerText = responseFromOwnerText,
                          raw_responseFromOwnerDate = responseFromOwnerDate,
                          raw_likesCount = likesCount,
                          raw_reviewDetailedRating = reviewDetailedRating,
                          raw_reviewerNumberOfReviews = fst info,
                          raw_isLocalGuide = snd info\<rparr>
              else None))"

definition extractCards_legacy :: "card list \<Rightarrow> raw_review list" where
  "extractCards_legacy cards = List.map_filter extractCard_legacy cards"

section \<open>The scroll loop\<close>

text \<open>
  The loop that scrolls the reviews panel is the same in both scripts. The document
  enters it only through the number of cards counted at the head of each round:
  \<open>counts k\<close> is the count measured in round \<open>k\<close>, after \<open>k\<close> scrolls and waits.
\<close>

datatype stop_reason = CapReached | NoProgress | IterationLimit

record scroll_state =
  scrollAttempt :: nat
  lastReviewCount :: nat
  noNewReviewsCount :: nat

text \<open>\<^verbatim>\<open>Math.ceil(maxItems / 10) + 5\<close> for an integer \<^verbatim>\<open>maxItems\<close>.\<close>

definition maxScrollAttempts :: "int \<Rightarrow> int" where
  "maxScrollAttempts maxItems = - ((- maxItems) div 10) + 5"

text \<open>
  One round after its measurement \<open>currentCount\<close>: the state after the round, with the
  reason when the round ended in \<^verbatim>\<open>break\<close> (before its scroll), and \<^term>\<open>None\<close> when
  it scrolled, waited and went on to the next round.
\<close>

definition scroll_body :: "int \<Rightarrow> nat \<Rightarrow> scroll_state \<Rightarrow> scroll_state \<times> stop_reason option" where
  "scroll_body maxItems currentCount st =
     (if int currentCount \<ge> maxItems then (st, Some CapReached)
      else if currentCount = lastReviewCount st
      then (let st1 = st\<lparr>noNewReviewsCount := noNewReviewsCount st + 1\<rparr>
            in if noNewReviewsCount st1 \<ge> 3 then (st1, Some NoProgress)
               else (st1\<lparr>lastReviewCount := currentCount,
                          scrollAttempt := scrollAttempt st1 + 1\<rparr>, None))
      else (st\<lparr>noNewReviewsCount := 0, lastReviewCount := currentCount,
                scrollAttempt := scrollAttempt st + 1\<rparr>, None))"

function scroll_loop ::
  "int \<Rightarrow> int \<Rightarrow> (nat \<Rightarrow> nat) \<Rightarrow> scroll_state \<Rightarrow> scroll_state \<times> stop_reason" where
  "scroll_loop maxItems maxAttempts counts st =
     (if int (scrollAttempt st) < maxAttempts
      then (case scroll_body maxItems (counts (scrollAttempt st)) st of
              (st', Some r) \<Rightarrow> (st', r)
            | (st', None) \<Rightarrow> scroll_loop maxItems maxAttempts counts st')
      else (st, IterationLimit))"
  by pat_completeness auto
termination
  by (relation "measure (\<lambda>(maxItems, maxAttempts, counts, st). nat (maxAttempts - int (scrollAttempt st)))")
     (auto simp: scroll_body_def Let_def split: if_splits)

declare scroll_loop.simps [simp del]

text \<open>The loop from its initial variables; \<^term>\<open>scrollAttempt\<close> of the result is the number of scrolls made.\<close>

definition scroll_to_load :: "int \<Rightarrow> (nat \<Rightarrow> nat) \<Rightarrow> scroll_state \<times> stop_reason" where
  "scroll_to_load maxItems counts =
     scroll_loop maxItems (maxScrollAttempts maxItems) counts
       \<lparr>scrollAttempt = 0, lastReviewCount = 0, noNewReviewsCount = 0\<rparr>"

section \<open>Accumulation\<close>

record GoogleReview =
  reviewId :: string
  name :: string
  stars :: nat
  publishedAtDate :: string
  reviewText :: "string option"        \<comment> \<open>the field \<^verbatim>\<open>text\<close> of the source\<close>
  reviewUrl :: "string option"
  responseFromOwnerText :: "string option"
  responseFromOwnerDate :: "string option"
  likesCount :: nat
  reviewDetailedRating :: "(string \<times> nat) list option"
  reviewerNumberOfReviews :: "nat option"
  isLocalGuide :: bool
  language :: string
  reviewOrigin :: string

datatype script = MainScript | OlderScript

text \<open>\<^verbatim>\<open>x ? String(x) : null\<close> on a string or null.\<close>

definition truthy :: "string option \<Rightarrow> string option" where
  "truthy x = (case x of None \<Rightarrow> None | Some t \<Rightarrow> if t = [] then None else Some t)"

text \<open>
  The object pushed for a record; \<open>published\<close> is what \<^verbatim>\<open>parseRelativeDate\<close> returned.
  \<open>main.ts\<close> sets \<^verbatim>\<open>reviewDetailedRating\<close> to null, the older script passes it on.
\<close>

definition to_review :: "script \<Rightarrow> raw_review \<Rightarrow> string \<Rightarrow> GoogleReview" where
  "to_review sc rv published =
     \<lparr>reviewId = raw_reviewId rv,
      name = (if raw_name rv = [] then ''Anonymous'' else raw_name rv),
      stars = raw_stars rv,
      publishedAtDate = published,
      reviewText = truthy (raw_text rv),
      reviewUrl = None,
      responseFromOwnerText = truthy (raw_responseFromOwnerText rv),
      responseFromOwnerDate = truthy (raw_responseFromOwnerDate rv),
      likesCount = raw_likesCount rv,
      reviewDetailedRating =
        (case sc of MainScript \<Rightarrow> None | OlderScript \<Rightarrow> raw_reviewDetailedRating rv),
      reviewerNumberOfReviews = raw_reviewerNumberOfReviews rv,
      isLocalGuide = raw_isLocalGuide rv,
      language = ''en'',
      reviewOrigin = ''Google''\<rparr>"

record acc_state =
  collectedReviews :: "GoogleReview list"
  seenIds :: "string set"

datatype offer_result = Accepted | Duplicate | CapFull | Threw js_error

text \<open>
  One round of the accumulation loop on the record \<open>rv\<close>; \<open>now\<close> is the clock read
  by \<^verbatim>\<open>parseRelativeDate\<close>. At the cap the loop breaks; a seen identity is skipped;
  otherwise the identity is marked seen and the record pushed. A \<^verbatim>\<open>RangeError\<close> of
  \<^verbatim>\<open>parseRelativeDate\<close> leaves the handler after the identity was marked and before
  the push.
\<close>

definition offer ::
  "script \<Rightarrow> zone \<Rightarrow> int \<Rightarrow> raw_review \<times> int \<Rightarrow> acc_state \<Rightarrow> acc_state \<times> offer_result" where
  "offer sc tz maxItems x st =
     (let rv = fst x; now = snd x
      in if int (length (collectedReviews st)) \<ge> maxItems then (st, CapFull)
         else (let rid = raw_reviewId rv
               in if rid \<in> seenIds st then (st, Duplicate)
                  else (let st1 = st\<lparr>seenIds := insert rid (seenIds st)\<rparr>
                        in case parseRelativeDate tz (raw_dateText rv) now of
                             Inl e \<Rightarrow> (st1, Threw e)
                           | Inr published \<Rightarrow>
                               (st1\<lparr>collectedReviews :=
                                      collectedReviews st1 @ [to_review sc rv published]\<rparr>,
                                Accepted))))"

fun accumulate ::
  "script \<Rightarrow> zone \<Rightarrow> int \<Rightarrow> acc_state \<Rightarrow> (raw_review \<times> int) list \<Rightarrow> acc_state \<times> js_error option" where
  "accumulate sc tz maxItems st [] = (st, None)"
| "accumulate sc tz maxItems st (x # xs) =
     (case offer sc tz maxItems x st of
        (st', Accepted) \<Rightarrow> accumulate sc tz maxItems st' xs
      | (st', Duplicate) \<Rightarrow> accumulate sc tz maxItems st' xs
      | (st', CapFull) \<Rightarrow> (st', None)
      | (st', Threw e) \<Rightarrow> (st', Some e))"

section \<open>The request handler and the session\<close>

text \<open>
  One run of \<^verbatim>\<open>requestHandler\<close> sees the page through the counts of the scroll loop
  and through the cards its extraction query returns; \<open>cards_after k\<close> are those cards
  when the loop has made \<open>k\<close> scrolls. \<open>panel_found\<close> is whether the older script found
  the reviews container or the main panel (it returns early otherwise). The clocks are
  the wall clock while a card is read and while a record is pushed. Navigation, the
  choice of the card selector and the clicks that expand truncated text act on the page
  and are part of what the queries return.
\<close>

record visit =
  panel_found :: bool
  counts :: "nat \<Rightarrow> nat"
  cards_after :: "nat \<Rightarrow> card list"
  extract_clock :: "nat \<Rightarrow> int"
  push_clock :: "nat \<Rightarrow> int"

definition pageReviews :: "script \<Rightarrow> int \<Rightarrow> visit \<Rightarrow> raw_review list" where
  "pageReviews sc maxItems v =
     (let k = scrollAttempt (fst (scroll_to_load maxItems (counts v)))
      in case sc of
           MainScript \<Rightarrow> extractCards (extract_clock v) (cards_after v k)
         | OlderScript \<Rightarrow> extractCards_legacy (cards_after v k))"

definition requestHandler ::
  "script \<Rightarrow> zone \<Rightarrow> int \<Rightarrow> visit \<Rightarrow> acc_state \<Rightarrow> acc_state \<times> js_error option" where
  "requestHandler sc tz maxItems v st =
     (if int (length (collectedReviews st)) \<ge> maxItems then (st, None)
      else if sc = OlderScript \<and> \<not> panel_found v then (st, None)
      else (let revs = pageReviews sc maxItems v
            in accumulate sc tz maxItems st (zip revs (map (push_clock v) [0..<length revs]))))"

text \<open>
  \<^verbatim>\<open>collectedReviews\<close> and \<^verbatim>\<open>seenIds\<close> start empty for a start URL and are shared by
  every run of the handler for it: the crawler runs the handler again when it threw.
\<close>

definition initial_state :: acc_state where
  "initial_state = \<lparr>collectedReviews = [], seenIds = {}\<rparr>"

definition session :: "script \<Rightarrow> zone \<Rightarrow> int \<Rightarrow> visit list \<Rightarrow> acc_state" where
  "session sc tz maxItems visits =
     foldl (\<lambda>st v. fst (requestHandler sc tz maxItems v st)) initial_state visits"

section \<open>Properties stated about the scraper\<close>

subsection \<open>Invariants of the accumulated collection\<close>

definition within_cap :: "int \<Rightarrow> acc_state \<Rightarrow> bool" where
  "within_cap maxItems st \<longleftrightarrow> int (length (collectedReviews st)) \<le> maxItems"

definition ids_sound :: "acc_state \<Rightarrow> bool" where
  "ids_sound st \<longleftrightarrow>
     distinct (map reviewId (collectedReviews st)) \<and>
     set (map reviewId (collectedReviews st)) \<subseteq> seenIds st"

definition constants_attached :: "acc_state \<Rightarrow> bool" where
  "constants_attached st \<longleftrightarrow>
     (\<forall>r \<in> set (collectedReviews st).
        reviewUrl r = None \<and> language r = ''en'' \<and> reviewOrigin r = ''Google'')"

definition stars_valid :: "acc_state \<Rightarrow> bool" where
  "stars_valid st \<longleftrightarrow> (\<forall>r \<in> set (collectedReviews st). stars r \<in> {1..5})"

subsection \<open>The grammar of relative times, as the specification words it\<close>

text \<open>
  The specification describes the texts the normalizer recognises as
  \<^verbatim>\<open><positive integer> <unit>s? ago\<close> and \<^verbatim>\<open>a|an <unit> ago\<close>. The two predicates
  \<open>plural_phrase\<close> and \<open>article_phrase\<close> say this of a whole text, by the pieces it is
  made of, and do not run the matcher of the code.
\<close>

definition unit_words :: "string set" where
  "unit_words = {''second'', ''minute'', ''hour'', ''day'', ''week'', ''month'', ''year''}"

definition digits :: "string \<Rightarrow> bool" where
  "digits ds \<longleftrightarrow> ds \<noteq> [] \<and> (\<forall>c \<in> set ds. is_digit c)"

definition blanks :: "string \<Rightarrow> bool" where
  "blanks w \<longleftrightarrow> w \<noteq> [] \<and> (\<forall>c \<in> set w. is_space c)"

definition plural_phrase :: "string \<Rightarrow> bool" where
  "plural_phrase s \<longleftrightarrow>
     (\<exists>ds w1 u sfx w2.
        s = ds @ w1 @ u @ sfx @ w2 @ ''ago'' \<and>
        digits ds \<and> 0 < parse_nat ds \<and> blanks w1 \<and> u \<in> unit_words \<and>
        (sfx = [] \<or> sfx = ''s'') \<and> blanks w2)"

definition article_phrase :: "string \<Rightarrow> bool" where
  "article_phrase s \<longleftrightarrow>
     (\<exists>art w1 u w2.
        s = art @ w1 @ u @ w2 @ ''ago'' \<and>
        (art = ''a'' \<or> art = ''an'') \<and> blanks w1 \<and> u \<in> unit_words \<and> blanks w2)"

text \<open>
  The wider condition of the amended claim: an amount, a unit and \<^verbatim>\<open>ago\<close> occur
  somewhere in the text, the amount being any run of digits (zero included), with
  anything before and after.
\<close>

definition amount_phrase_within :: "string \<Rightarrow> bool" where
  "amount_phrase_within s \<longleftrightarrow>
     (\<exists>pre ds w1 u sfx w2 post.
        s = pre @ ds @ w1 @ u @ sfx @ w2 @ ''ago'' @ post \<and>
        digits ds \<and> blanks w1 \<and> u \<in> unit_words \<and>
        (sfx = [] \<or> sfx = ''s'') \<and> blanks w2)"

subsection \<open>Time zones of the examples\<close>

text \<open>
  A zone is well formed when its offsets stay within a day of UTC, as those of every
  zone of the time zone database do. \<open>utc_zone\<close> is UTC itself. A zone with one change
  of offset, at the instant \<open>t0\<close> from \<open>before\<close> to \<open>after\<close>, reads the local times
  that the change repeats or skips with \<open>before\<close>; \<open>london_2026\<close> and \<open>new_york_2026\<close>
  are Europe/London and America/New_York around the end of summer time in 2026
  (2026-10-25T01:00Z and 2026-11-01T06:00Z).
\<close>

definition zone_within_a_day :: "zone \<Rightarrow> bool" where
  "zone_within_a_day tz \<longleftrightarrow>
     (\<forall>t. \<bar>utc_offset tz t\<bar> \<le> msPerDay) \<and> (\<forall>t. \<bar>local_offset tz t\<bar> \<le> msPerDay)"

definition utc_zone :: zone where
  "utc_zone = \<lparr>utc_offset = (\<lambda>t. 0), local_offset = (\<lambda>t. 0)\<rparr>"

definition one_change_zone :: "int \<Rightarrow> int \<Rightarrow> int \<Rightarrow> zone" where
  "one_change_zone t0 before after =
     \<lparr>utc_offset = (\<lambda>t. if t < t0 then before else after),
      local_offset = (\<lambda>t. if t < t0 + max before after then before else after)\<rparr>"

definition london_2026 :: zone where
  "london_2026 = one_change_zone 1792890000000 3600000 0"

definition new_york_2026 :: zone where
  "new_york_2026 = one_change_zone 1793512800000 (- 14400000) (- 18000000)"

subsection \<open>Example pages\<close>

text \<open>
  Cards, records and visits on which the theorems are instantiated: a rated card with
  an identity, a card without a rating, a rated card whose identity is empty, a rated
  card without an identity, and a card whose only name is a link text of 60 code units.
\<close>

definition blank_card :: card where
  "blank_card =
     \<lparr>data_review_id = None, starEl = None, starEl_span = None, filledStars = 0,
      name_d4r55 = None, name_contrib = None, name_button = None, firstLink = None,
      dateEl = None, spans = [], textEl = None, responseContainer = None,
      likesEl = None, infoSpans = [], ratingRows = []\<rparr>"

definition card_jane :: card where
  "card_jane = blank_card
     \<lparr>data_review_id := Some ''ChZDSUhNMG9nS0VJQ0FnSUQ'',
      starEl := Some ''5 stars'', starEl_span := Some ''5 stars'',
      firstLink := Some '' Jane D. '',
      dateEl := Some ''2 weeks ago'',
      spans := ['''', ''2 weeks ago'', ''12''],
      likesEl := Some ''12''\<rparr>"

definition card_unrated :: card where
  "card_unrated = blank_card
     \<lparr>data_review_id := Some ''ChdDSUhNMG9nS0VJQ0FnSUR'',
      name_d4r55 := Some ''Sam''\<rparr>"

definition card_no_id :: card where
  "card_no_id = blank_card
     \<lparr>data_review_id := Some [], starEl := Some ''4 stars'', starEl_span := Some ''4 stars'',
      spans := ['''']\<rparr>"

definition card_anonymous :: card where
  "card_anonymous = blank_card\<lparr>starEl := Some ''4 stars''\<rparr>"

definition link_of_60 :: string where
  "link_of_60 = ''Maximiliana Alexandrina Konstantinopolitanska-Wolfeschlegels''"

definition card_long_link :: card where
  "card_long_link = blank_card\<lparr>starEl := Some ''3 stars'', firstLink := Some link_of_60\<rparr>"

definition demo_raw :: raw_review where
  "demo_raw =
     \<lparr>raw_reviewId = ''ChZDSUhNMG9nS0VJQ0FnSUQ'', raw_name = ''Jane D.'',
      raw_stars = 5, raw_dateText = ''2 weeks ago'', raw_text = None,
      raw_responseFromOwnerText = None, raw_responseFromOwnerDate = None,
      raw_likesCount = 12, raw_reviewDetailedRating = None,
      raw_reviewerNumberOfReviews = None, raw_isLocalGuide = False\<rparr>"

definition other_raw :: raw_review where
  "other_raw = demo_raw\<lparr>raw_reviewId := ''ChdDSUhNMG9nS0VJQ0FnSUR''\<rparr>"

definition demo_review :: GoogleReview where
  "demo_review =
     \<lparr>reviewId = ''ChZDSUhNMG9nS0VJQ0FnSUQ'', name = ''Jane D.'', stars = 5,
      publishedAtDate = ''2026-10-20T00:00:00.123Z'', reviewText = None,
      reviewUrl = None, responseFromOwnerText = None,
      responseFromOwnerDate = None, likesCount = 12,
      reviewDetailedRating = None, reviewerNumberOfReviews = None,
      isLocalGuide = False, language = ''en'', reviewOrigin = ''Google''\<rparr>"

definition demo_state :: acc_state where
  "demo_state = \<lparr>collectedReviews = [demo_review], seenIds = {''ChZDSUhNMG9nS0VJQ0FnSUQ''}\<rparr>"

definition demo_visit :: visit where
  "demo_visit =
     \<lparr>panel_found = True, counts = (\<lambda>k. 2),
      cards_after = (\<lambda>k. [card_jane, card_unrated]),
      extract_clock = (\<lambda>i. 1793664000123), push_clock = (\<lambda>i. 1793664000123)\<rparr>"



section \<open>Lemmas\<close>

subsection \<open>Accumulation\<close>

lemma offer_cases:
  "offer sc tz maxItems x st = (st, CapFull) \<and> int (length (collectedReviews st)) \<ge> maxItems
   \<or> offer sc tz maxItems x st = (st, Duplicate) \<and> int (length (collectedReviews st)) < maxItems
        \<and> raw_reviewId (fst x) \<in> seenIds st
   \<or> (\<exists>e. offer sc tz maxItems x st = (st\<lparr>seenIds := insert (raw_reviewId (fst x)) (seenIds st)\<rparr>, Threw e))
        \<and> int (length (collectedReviews st)) < maxItems \<and> raw_reviewId (fst x) \<notin> seenIds st
   \<or> (\<exists>p. offer sc tz maxItems x st =
          (st\<lparr>seenIds := insert (raw_reviewId (fst x)) (seenIds st),
              collectedReviews := collectedReviews st @ [to_review sc (fst x) p]\<rparr>, Accepted))
        \<and> int (length (collectedReviews st)) < maxItems \<and> raw_reviewId (fst x) \<notin> seenIds st"
  by (auto simp: offer_def Let_def split: sum.splits)

lemma accumulate_preserves:
  assumes step: "\<And>x s. x \<in> set xs \<Longrightarrow> P s \<Longrightarrow> P (fst (offer sc tz maxItems x s))"
    and init: "P st"
  shows "P (fst (accumulate sc tz maxItems st xs))"
  using assms
proof (induction xs arbitrary: st)
  case Nil
  then show ?case by simp
next
  case (Cons x xs)
  have P': "P (fst (offer sc tz maxItems x st))"
    using Cons.prems by simp
  obtain st' r where o: "offer sc tz maxItems x st = (st', r)"
    by (cases "offer sc tz maxItems x st")
  with P' have "P st'" by simp
  then have "P (fst (accumulate sc tz maxItems st' xs))"
    using Cons.IH [of st'] Cons.prems(1) by simp
  with \<open>P st'\<close> show ?case
    using o by (cases r) simp_all
qed

lemma requestHandler_preserves:
  assumes step: "\<And>x s. fst x \<in> set (pageReviews sc maxItems v) \<Longrightarrow> P s \<Longrightarrow> P (fst (offer sc tz maxItems x s))"
    and init: "P st"
  shows "P (fst (requestHandler sc tz maxItems v st))"
proof -
  let ?xs = "zip (pageReviews sc maxItems v)
               (map (push_clock v) [0..<length (pageReviews sc maxItems v)])"
  have "P (fst (accumulate sc tz maxItems st ?xs))"
  proof (rule accumulate_preserves [where P = P, OF _ init])
    fix x :: "raw_review \<times> int" and s
    assume "x \<in> set ?xs" and "P s"
    moreover from \<open>x \<in> set ?xs\<close> have "fst x \<in> set (pageReviews sc maxItems v)"
      using set_zip_leftD [of "fst x" "snd x"] by simp
    ultimately show "P (fst (offer sc tz maxItems x s))"
      by (intro step)
  qed
  then show ?thesis
    using init by (simp add: requestHandler_def Let_def)
qed

lemma session_preserves:
  assumes step: "\<And>v x s. v \<in> set visits \<Longrightarrow> fst x \<in> set (pageReviews sc maxItems v) \<Longrightarrow> P s
                   \<Longrightarrow> P (fst (offer sc tz maxItems x s))"
    and init: "P initial_state"
  shows "P (session sc tz maxItems visits)"
proof -
  have "P (foldl (\<lambda>st v. fst (requestHandler sc tz maxItems v st)) s vs)"
    if "P s" and "set vs \<subseteq> set visits" for s vs
    using that
  proof (induction vs arbitrary: s)
    case Nil
    then show ?case by simp
  next
    case (Cons v vs)
    from Cons.prems have v: "v \<in> set visits" by simp
    have "P (fst (requestHandler sc tz maxItems v s))"
    proof (rule requestHandler_preserves [where P = P])
      show "P s" by (rule Cons.prems)
    next
      fix x :: "raw_review \<times> int" and s'
      assume "fst x \<in> set (pageReviews sc maxItems v)" and "P s'"
      then show "P (fst (offer sc tz maxItems x s'))"
        using v by (intro step)
    qed
    then show ?case
      using Cons.IH [of "fst (requestHandler sc tz maxItems v s)"] Cons.prems(2) by simp
  qed
  from this [of initial_state visits] init show ?thesis
    by (simp add: session_def)
qed

lemma offer_within_cap:
  "within_cap maxItems st \<Longrightarrow> within_cap maxItems (fst (offer sc tz maxItems x st))"
  using offer_cases [of sc tz maxItems x st] by (auto simp: within_cap_def)

lemma offer_at_cap:
  "int (length (collectedReviews st)) \<ge> maxItems \<Longrightarrow> offer sc tz maxItems x st = (st, CapFull)"
  by (simp add: offer_def Let_def)

lemma offer_ids_sound: "ids_sound st \<Longrightarrow> ids_sound (fst (offer sc tz maxItems x st))"
proof -
  assume "ids_sound st"
  then have d: "distinct (map reviewId (collectedReviews st))"
    and sub: "\<forall>r \<in> set (collectedReviews st). reviewId r \<in> seenIds st"
    by (auto simp: ids_sound_def)
  from offer_cases [of sc tz maxItems x st] show ?thesis
  proof (elim disjE conjE exE)
    fix p
    assume o: "offer sc tz maxItems x st =
          (st\<lparr>seenIds := insert (raw_reviewId (fst x)) (seenIds st),
              collectedReviews := collectedReviews st @ [to_review sc (fst x) p]\<rparr>, Accepted)"
      and new: "raw_reviewId (fst x) \<notin> seenIds st"
    from new sub have "raw_reviewId (fst x) \<notin> reviewId ` set (collectedReviews st)"
      by auto
    with d sub show ?thesis
      by (simp add: o ids_sound_def to_review_def) blast
  qed (use d sub in \<open>auto simp: ids_sound_def\<close>)
qed

lemma session_ids_sound: "ids_sound (session sc tz maxItems visits)"
proof (rule session_preserves [where P = ids_sound])
  show "ids_sound initial_state"
    by (simp add: ids_sound_def initial_state_def)
qed (rule offer_ids_sound)

lemma offer_constants_attached:
  "constants_attached st \<Longrightarrow> constants_attached (fst (offer sc tz maxItems x st))"
  using offer_cases [of sc tz maxItems x st]
  by (auto simp: constants_attached_def to_review_def)

lemma offer_stars_valid:
  "raw_stars (fst x) \<in> {1..5} \<Longrightarrow> stars_valid st \<Longrightarrow> stars_valid (fst (offer sc tz maxItems x st))"
  using offer_cases [of sc tz maxItems x st]
  by (auto simp: stars_valid_def to_review_def)

subsection \<open>The scroll loop\<close>

lemma scroll_body_attempt:
  "scroll_body maxItems c st = (st', None) \<Longrightarrow> scrollAttempt st' = scrollAttempt st + 1"
  by (auto simp: scroll_body_def Let_def split: if_splits)

lemma scroll_body_break:
  "scroll_body maxItems c st = (st', Some r) \<Longrightarrow> scrollAttempt st' = scrollAttempt st \<and> r \<noteq> IterationLimit"
  by (auto simp: scroll_body_def Let_def split: if_splits)

lemma scroll_loop_bound:
  "int (scrollAttempt st) \<le> maxAttempts \<Longrightarrow>
   int (scrollAttempt (fst (scroll_loop maxItems maxAttempts cnt st))) \<le> maxAttempts
   \<and> (snd (scroll_loop maxItems maxAttempts cnt st) = IterationLimit \<longleftrightarrow>
        int (scrollAttempt (fst (scroll_loop maxItems maxAttempts cnt st))) = maxAttempts)"
proof (induction maxItems maxAttempts cnt st rule: scroll_loop.induct)
  case (1 maxItems maxAttempts cnt st)
  show ?case
  proof (cases "int (scrollAttempt st) < maxAttempts")
    case False
    with "1.prems" show ?thesis
      by (simp add: scroll_loop.simps [of maxItems maxAttempts cnt st])
  next
    case True
    obtain st' r where b: "scroll_body maxItems (cnt (scrollAttempt st)) st = (st', r)"
      by (cases "scroll_body maxItems (cnt (scrollAttempt st)) st")
    show ?thesis
    proof (cases r)
      case None
      with b have "scrollAttempt st' = scrollAttempt st + 1"
        by (simp add: scroll_body_attempt)
      with True have "int (scrollAttempt st') \<le> maxAttempts" by simp
      with "1.IH" [OF True b [symmetric] None] True b None show ?thesis
        by (simp add: scroll_loop.simps [of maxItems maxAttempts cnt st])
    next
      case (Some reason)
      with b have "scrollAttempt st' = scrollAttempt st" "reason \<noteq> IterationLimit"
        using scroll_body_break [of maxItems "cnt (scrollAttempt st)" st st' reason] by simp_all
      with True b Some show ?thesis
        by (simp add: scroll_loop.simps [of maxItems maxAttempts cnt st])
    qed
  qed
qed

lemma scroll_loop_progress:
  "int (scrollAttempt st) \<le> maxAttempts \<Longrightarrow>
   (\<forall>k. scrollAttempt st \<le> k \<and> int k < maxAttempts \<longrightarrow>
      int (cnt k) < maxItems \<and>
      cnt k \<noteq> (if k = scrollAttempt st then lastReviewCount st else cnt (k - 1))) \<Longrightarrow>
   snd (scroll_loop maxItems maxAttempts cnt st) = IterationLimit"
proof (induction maxItems maxAttempts cnt st rule: scroll_loop.induct)
  case (1 maxItems maxAttempts cnt st)
  show ?case
  proof (cases "int (scrollAttempt st) < maxAttempts")
    case False
    then show ?thesis
      by (simp add: scroll_loop.simps [of maxItems maxAttempts cnt st])
  next
    case True
    let ?c = "cnt (scrollAttempt st)"
    let ?st' = "st\<lparr>noNewReviewsCount := 0, lastReviewCount := ?c,
                    scrollAttempt := scrollAttempt st + 1\<rparr>"
    from "1.prems"(2) True have c: "int ?c < maxItems" "?c \<noteq> lastReviewCount st"
      by auto
    then have b: "scroll_body maxItems ?c st = (?st', None)"
      by (simp add: scroll_body_def)
    have "snd (scroll_loop maxItems maxAttempts cnt ?st') = IterationLimit"
    proof (rule "1.IH" [OF True b [symmetric] refl])
      show "int (scrollAttempt ?st') \<le> maxAttempts" using True by simp
      show "\<forall>k. scrollAttempt ?st' \<le> k \<and> int k < maxAttempts \<longrightarrow>
              int (cnt k) < maxItems \<and>
              cnt k \<noteq> (if k = scrollAttempt ?st' then lastReviewCount ?st' else cnt (k - 1))"
      proof (intro allI impI)
        fix k
        assume k: "scrollAttempt ?st' \<le> k \<and> int k < maxAttempts"
        then have "scrollAttempt st \<le> k \<and> int k < maxAttempts" and "k \<noteq> scrollAttempt st"
          by simp_all
        with "1.prems"(2) have "int (cnt k) < maxItems \<and> cnt k \<noteq> cnt (k - 1)"
          by metis
        then show "int (cnt k) < maxItems \<and>
              cnt k \<noteq> (if k = scrollAttempt ?st' then lastReviewCount ?st' else cnt (k - 1))"
          by (cases "k = scrollAttempt ?st'") simp_all
      qed
    qed
    with True b show ?thesis
      by (simp add: scroll_loop.simps [of maxItems maxAttempts cnt st])
  qed
qed

lemma maxScrollAttempts_ceiling: "maxScrollAttempts maxItems = (maxItems + 9) div 10 + 5"
  unfolding maxScrollAttempts_def by presburger

lemma stalled_round:
  assumes "int (scrollAttempt st) < maxAttempts"
    and "cnt (scrollAttempt st) = lastReviewCount st"
    and "int (lastReviewCount st) < maxItems"
  shows "scroll_loop maxItems maxAttempts cnt st =
     (if noNewReviewsCount st + 1 \<ge> 3
      then (st\<lparr>noNewReviewsCount := noNewReviewsCount st + 1\<rparr>, NoProgress)
      else scroll_loop maxItems maxAttempts cnt
             (st\<lparr>noNewReviewsCount := noNewReviewsCount st + 1,
                 scrollAttempt := scrollAttempt st + 1\<rparr>))"
  using assms
  by (simp add: scroll_loop.simps [of maxItems maxAttempts cnt st] scroll_body_def Let_def)

lemma three_stalled_rounds:
  assumes ceiling: "int (scrollAttempt st) + 2 < maxAttempts"
    and below: "int (lastReviewCount st) < maxItems"
    and same: "\<forall>j < 3. cnt (scrollAttempt st + j) = lastReviewCount st"
  shows "scroll_loop maxItems maxAttempts cnt st =
     (st\<lparr>noNewReviewsCount := max 3 (noNewReviewsCount st + 1),
         scrollAttempt := scrollAttempt st + (2 - noNewReviewsCount st)\<rparr>, NoProgress)"
proof -
  from same have c0: "cnt (scrollAttempt st) = lastReviewCount st"
    and c1: "cnt (scrollAttempt st + 1) = lastReviewCount st"
    and c2: "cnt (scrollAttempt st + 2) = lastReviewCount st"
    using same [rule_format, of 0] same [rule_format, of 1] same [rule_format, of 2] by simp_all
  let ?n = "noNewReviewsCount st"
  consider "?n \<ge> 2" | "?n = 1" | "?n = 0" by linarith
  then show ?thesis
  proof cases
    case 1
    then show ?thesis
      using stalled_round [of st maxAttempts cnt maxItems] ceiling below c0
      by (simp add: max_def)
  next
    case 2
    let ?s1 = "st\<lparr>noNewReviewsCount := 2, scrollAttempt := scrollAttempt st + 1\<rparr>"
    have "scroll_loop maxItems maxAttempts cnt st = scroll_loop maxItems maxAttempts cnt ?s1"
      using stalled_round [of st maxAttempts cnt maxItems] ceiling below c0 2 by (simp add: numeral_2_eq_2)
    also have "\<dots> = (?s1\<lparr>noNewReviewsCount := 3\<rparr>, NoProgress)"
      using stalled_round [of ?s1 maxAttempts cnt maxItems] ceiling below c1 by (simp add: numeral_3_eq_3 numeral_2_eq_2)
    finally show ?thesis using 2 by (simp add: numeral_3_eq_3 numeral_2_eq_2)
  next
    case 3
    let ?s1 = "st\<lparr>noNewReviewsCount := 1, scrollAttempt := scrollAttempt st + 1\<rparr>"
    let ?s2 = "st\<lparr>noNewReviewsCount := 2, scrollAttempt := scrollAttempt st + 2\<rparr>"
    have "scroll_loop maxItems maxAttempts cnt st = scroll_loop maxItems maxAttempts cnt ?s1"
      using stalled_round [of st maxAttempts cnt maxItems] ceiling below c0 3 by simp
    also have "\<dots> = scroll_loop maxItems maxAttempts cnt ?s2"
      using stalled_round [of ?s1 maxAttempts cnt maxItems] ceiling below c1 by (simp add: numeral_2_eq_2)
    also have "\<dots> = (?s2\<lparr>noNewReviewsCount := 3\<rparr>, NoProgress)"
      using stalled_round [of ?s2 maxAttempts cnt maxItems] ceiling below c2 by (simp add: numeral_3_eq_3 numeral_2_eq_2)
    finally show ?thesis using 3 by (simp add: numeral_3_eq_3 numeral_2_eq_2)
  qed
qed

lemma changed_round:
  "c \<noteq> lastReviewCount st \<Longrightarrow> int c < maxItems \<Longrightarrow>
   scroll_body maxItems c st =
     (st\<lparr>noNewReviewsCount := 0, lastReviewCount := c, scrollAttempt := scrollAttempt st + 1\<rparr>, None)"
  by (simp add: scroll_body_def)

lemma constant_count_stops:
  assumes "0 < c" "int c < maxItems"
  shows "scroll_to_load maxItems (\<lambda>k. c) =
           (\<lparr>scrollAttempt = 3, lastReviewCount = c, noNewReviewsCount = 3\<rparr>, NoProgress)"
proof -
  have m: "6 \<le> maxScrollAttempts maxItems"
    using assms unfolding maxScrollAttempts_ceiling by simp
  let ?s0 = "\<lparr>scrollAttempt = 0, lastReviewCount = 0, noNewReviewsCount = 0\<rparr>"
  let ?s1 = "\<lparr>scrollAttempt = 1, lastReviewCount = c, noNewReviewsCount = 0\<rparr>"
  have "scroll_body maxItems c ?s0 = (?s1, None)"
    using changed_round [where c = c and st = ?s0 and maxItems = maxItems] assms by simp
  then have "scroll_to_load maxItems (\<lambda>k. c) =
      scroll_loop maxItems (maxScrollAttempts maxItems) (\<lambda>k. c) ?s1"
    using m unfolding scroll_to_load_def
    by (simp add: scroll_loop.simps [of maxItems "maxScrollAttempts maxItems" "\<lambda>k. c" ?s0])
  also have "\<dots> = (?s1\<lparr>noNewReviewsCount := max 3 (noNewReviewsCount ?s1 + 1),
         scrollAttempt := scrollAttempt ?s1 + (2 - noNewReviewsCount ?s1)\<rparr>, NoProgress)"
    by (rule three_stalled_rounds) (use m assms in auto)
  finally show ?thesis by simp
qed

subsection \<open>Calendar arithmetic\<close>

lemma div_succ_int:
  fixes x k :: int
  assumes "0 < k"
  shows "(x + 1) div k = x div k + (if (x + 1) mod k = 0 then 1 else 0)"
proof -
  have x: "x = k * (x div k) + x mod k" by simp
  have r: "0 \<le> x mod k" "x mod k < k" using assms by simp_all
  show ?thesis
  proof (cases "x mod k + 1 = k")
    case True
    have "x + 1 = k * (x div k) + (x mod k + 1)" by simp
    also have "\<dots> = k * (x div k + 1)" using True by (simp add: algebra_simps)
    finally have "x + 1 = k * (x div k + 1)" .
    then have "(x + 1) div k = x div k + 1 \<and> (x + 1) mod k = 0"
      using assms by (metis mod_mult_self1_is_0 nonzero_mult_div_cancel_left less_irrefl)
    then show ?thesis by simp
  next
    case False
    then have lt: "x mod k + 1 < k" using r by simp
    have "x + 1 = k * (x div k) + (x mod k + 1)" using x by simp
    then have "(x + 1) div k = x div k \<and> (x + 1) mod k = x mod k + 1"
      using lt r assms
      by (metis add_nonneg_nonneg div_mult_self2 div_pos_pos_trivial mod_mult_self2 mod_pos_pos_trivial zero_le_one add.commute add_cancel_left_left less_irrefl)
    then show ?thesis using r by simp
  qed
qed

lemma mod4_shift: "((y::int) - 1968) mod 4 = 0 \<longleftrightarrow> y mod 4 = 0"
  using mod_mult_self2 [of y 4 "- 492"] by simp

lemma mod100_shift: "((y::int) - 1900) mod 100 = 0 \<longleftrightarrow> y mod 100 = 0"
  using mod_mult_self2 [of y 100 "- 19"] by simp

lemma mod400_shift: "((y::int) - 1600) mod 400 = 0 \<longleftrightarrow> y mod 400 = 0"
  using mod_mult_self2 [of y 400 "- 4"] by simp

lemma mod100_mod4: "(y::int) mod 100 = 0 \<Longrightarrow> y mod 4 = 0"
  using dvd_trans [of 4 100 y] by (simp add: mod_eq_0_iff_dvd)

lemma mod400_mod100: "(y::int) mod 400 = 0 \<Longrightarrow> y mod 100 = 0"
  using dvd_trans [of 100 400 y] by (simp add: mod_eq_0_iff_dvd)

lemma DayFromYear_step: "DayFromYear (y + 1) = DayFromYear y + DaysInYear y"
proof -
  have a: "(y + 1 - 1969) div 4 = (y - 1969) div 4 + (if y mod 4 = 0 then 1 else 0)"
    using div_succ_int [of 4 "y - 1969"] mod4_shift [of y] by (simp add: algebra_simps)
  have b: "(y + 1 - 1901) div 100 = (y - 1901) div 100 + (if y mod 100 = 0 then 1 else 0)"
    using div_succ_int [of 100 "y - 1901"] mod100_shift [of y] by (simp add: algebra_simps)
  have c: "(y + 1 - 1601) div 400 = (y - 1601) div 400 + (if y mod 400 = 0 then 1 else 0)"
    using div_succ_int [of 400 "y - 1601"] mod400_shift [of y] by (simp add: algebra_simps)
  show ?thesis
    unfolding DayFromYear_def DaysInYear_def a b c
    using mod100_mod4 [of y] mod400_mod100 [of y] by auto
qed

lemma month_of_day_range: "0 \<le> month_of_day d l \<and> month_of_day d l \<le> 11"
  by (simp add: month_of_day_def)

lemma MonthFromTime_range: "0 \<le> MonthFromTime t \<and> MonthFromTime t \<le> 11"
  by (simp add: MonthFromTime_def month_of_day_range)

lemma Day_number_decomposed:
  "Day_number t =
     DayFromYear (YearFromTime t) + month_start (MonthFromTime t) (InLeapYear t) + DateFromTime t - 1"
  by (simp add: DateFromTime_def DayWithinYear_def)

lemma MakeDay_in_year:
  assumes "0 \<le> m" "m \<le> 11"
  shows "MakeDay y m d =
           DayFromYear y + month_start m (if DaysInYear y = 366 then 1 else 0) + d - 1"
proof -
  from assms have "m div 12 = 0" "m mod 12 = m" by simp_all
  then show ?thesis by (simp add: MakeDay_def Let_def)
qed

lemma MakeDay_same_month:
  "MakeDay (YearFromTime t) (MonthFromTime t) d = Day_number t + (d - DateFromTime t)"
  using MonthFromTime_range [of t] Day_number_decomposed [of t]
  by (simp add: MakeDay_in_year InLeapYear_def)

lemma month_cases:
  assumes "0 \<le> (m::int)" "m \<le> 11"
  obtains "m = 0" | "m = 1" | "m = 2" | "m = 3" | "m = 4" | "m = 5"
    | "m = 6" | "m = 7" | "m = 8" | "m = 9" | "m = 10" | "m = 11"
proof -
  from assms have "m = 0 \<or> m = 1 \<or> m = 2 \<or> m = 3 \<or> m = 4 \<or> m = 5
      \<or> m = 6 \<or> m = 7 \<or> m = 8 \<or> m = 9 \<or> m = 10 \<or> m = 11"
    by arith
  with that show thesis by blast
qed

lemma DaysInYear_cases: "DaysInYear y = 365 \<or> DaysInYear y = 366"
  by (simp add: DaysInYear_def)

lemma MakeDay_two_months_back:
  assumes "0 \<le> m" "m \<le> 11"
  shows "MakeDay y m d - 62 \<le> MakeDay y (m - 2) d \<and> MakeDay y (m - 2) d \<le> MakeDay y m d - 59"
proof -
  have prev: "DayFromYear y = DayFromYear (y - 1) + DaysInYear (y - 1)"
    using DayFromYear_step [of "y - 1"] by simp
  have early: "MakeDay y (m - 2) d =
      DayFromYear (y - 1) + month_start (m + 10) (if DaysInYear (y - 1) = 366 then 1 else 0) + d - 1"
    if "m = 0 \<or> m = 1"
  proof -
    from that have "(m - 2) div 12 = - 1" "(m - 2) mod 12 = m + 10" by auto
    then show ?thesis by (simp add: MakeDay_def Let_def)
  qed
  from assms show ?thesis
  proof (cases m rule: month_cases)
    case 1
    then show ?thesis
      using early prev DaysInYear_cases [of "y - 1"] DaysInYear_cases [of y]
      by (auto simp: MakeDay_in_year month_start_def)
  next
    case 2
    then show ?thesis
      using early prev DaysInYear_cases [of "y - 1"] DaysInYear_cases [of y]
      by (auto simp: MakeDay_in_year month_start_def)
  qed (use DaysInYear_cases [of y] in \<open>auto simp: MakeDay_in_year month_start_def\<close>)
qed

lemma MakeDate_Day_number: "MakeDate (Day_number t) (TimeWithinDay t) = t"
  by (simp add: MakeDate_def Day_number_def TimeWithinDay_def)

lemma MakeDate_shift: "MakeDate (Day_number t + k) (TimeWithinDay t) = t + k * msPerDay"
  using MakeDate_Day_number [of t] by (simp add: MakeDate_def algebra_simps)

lemma MakeTime_TimeWithinDay:
  "MakeTime (HourFromTime t) (MinFromTime t) (SecFromTime t) (msFromTime t) = TimeWithinDay t"
proof -
  define a where "a = t div 1000"
  define b where "b = a div 60"
  define c where "c = b div 60"
  define d where "d = c div 24"
  have m: "t div 60000 = b"
    using zdiv_zmult2_eq [of 60 t 1000] by (simp add: a_def b_def)
  have h: "t div 3600000 = c"
    using zdiv_zmult2_eq [of 60 t 60000] m by (simp add: c_def)
  have dd: "t div 86400000 = d"
    using zdiv_zmult2_eq [of 24 t 3600000] h by (simp add: d_def)
  have 1: "t mod 1000 = t - 1000 * a"
    unfolding a_def by (simp add: minus_mult_div_eq_mod)
  have 2: "a mod 60 = a - 60 * b"
    unfolding b_def by (simp add: minus_mult_div_eq_mod)
  have 3: "b mod 60 = b - 60 * c"
    unfolding c_def by (simp add: minus_mult_div_eq_mod)
  have 4: "c mod 24 = c - 24 * d"
    unfolding d_def by (simp add: minus_mult_div_eq_mod)
  have 5: "t mod 86400000 = t - 86400000 * d"
    unfolding dd [symmetric] by (simp add: minus_mult_div_eq_mod)
  have "HourFromTime t = c - 24 * d" "MinFromTime t = b - 60 * c" "SecFromTime t = a - 60 * b"
    "msFromTime t = t - 1000 * a" "TimeWithinDay t = t - 86400000 * d"
    using 1 2 3 4 5 m h
    by (simp_all add: HourFromTime_def MinFromTime_def SecFromTime_def msFromTime_def
        TimeWithinDay_def msPerHour_def msPerMinute_def msPerSecond_def msPerDay_def a_def [symmetric])
  then show ?thesis
    by (simp add: MakeTime_def msPerHour_def msPerMinute_def msPerSecond_def)
qed

lemma setDate_shift:
  "setDate tz (getDate tz now - k) now =
     TimeClip (UTC_time tz (LocalTime tz now - k * msPerDay))"
proof -
  let ?lt = "LocalTime tz now"
  have "MakeDay (YearFromTime ?lt) (MonthFromTime ?lt) (DateFromTime ?lt - k) = Day_number ?lt + (- k)"
    by (simp add: MakeDay_same_month)
  then show ?thesis
    using MakeDate_shift [of ?lt "- k"]
    by (simp add: setDate_def getDate_def Let_def)
qed

lemma setMonth_two_back:
  "\<exists>k. 59 \<le> k \<and> k \<le> 62 \<and>
     setMonth tz (getMonth tz now - 2) now =
       TimeClip (UTC_time tz (LocalTime tz now - k * msPerDay))"
proof -
  let ?lt = "LocalTime tz now"
  let ?d = "MakeDay (YearFromTime ?lt) (MonthFromTime ?lt - 2) (DateFromTime ?lt)"
  let ?k = "Day_number ?lt - ?d"
  have same: "MakeDay (YearFromTime ?lt) (MonthFromTime ?lt) (DateFromTime ?lt) = Day_number ?lt"
    by (simp add: MakeDay_same_month)
  have "59 \<le> ?k \<and> ?k \<le> 62"
    using MakeDay_two_months_back [of "MonthFromTime ?lt" "YearFromTime ?lt" "DateFromTime ?lt"]
      MonthFromTime_range [of ?lt] same by simp
  moreover have "setMonth tz (getMonth tz now - 2) now =
      TimeClip (UTC_time tz (?lt - ?k * msPerDay))"
  proof -
    have "MakeDate ?d (TimeWithinDay ?lt) = ?lt - ?k * msPerDay"
      using MakeDate_shift [of ?lt "- ?k"] by (simp add: algebra_simps)
    then show ?thesis
      by (simp add: setMonth_def getMonth_def Let_def)
  qed
  ultimately show ?thesis by blast
qed

text \<open>
  An amount of zero sets the field a getter has just read: the Date goes to local time
  and back.
\<close>

lemma subtract_zero:
  "subtract_amount tz u 0 now = TimeClip (UTC_time tz (LocalTime tz now))"
proof -
  let ?lt = "LocalTime tz now"
  have t: "MakeDate (Day_number ?lt)
      (MakeTime (HourFromTime ?lt) (MinFromTime ?lt) (SecFromTime ?lt) (msFromTime ?lt)) = ?lt"
    by (simp add: MakeTime_TimeWithinDay MakeDate_Day_number)
  have d: "MakeDate
      (MakeDay (YearFromTime ?lt) (MonthFromTime ?lt) (DateFromTime ?lt)) (TimeWithinDay ?lt) = ?lt"
    using MakeDate_shift [of ?lt 0]
    by (simp add: MakeDay_same_month)
  show ?thesis
    using t d
    by (cases u)
       (simp_all add: setSeconds_def setMinutes_def setHours_def setDate_def setMonth_def
          setFullYear_def getSeconds_def getMinutes_def getHours_def getDate_def getMonth_def
          getFullYear_def Let_def)
qed

lemma year_down_spec: "DayFromYear (year_down d y) \<le> d"
proof (induction d y rule: year_down.induct)
  case (1 d y)
  then show ?case
    by (cases "d < DayFromYear y") (simp_all add: year_down.simps [of d y])
qed

lemma year_up_spec:
  "DayFromYear y \<le> d \<Longrightarrow>
   DayFromYear (year_up d y) \<le> d \<and> d < DayFromYear (year_up d y + 1)"
proof (induction d y rule: year_up.induct)
  case (1 d y)
  then show ?case
    by (cases "DayFromYear (y + 1) \<le> d") (simp_all add: year_up.simps [of d y])
qed

lemma YearFromDay_spec:
  "DayFromYear (YearFromDay d) \<le> d \<and> d < DayFromYear (YearFromDay d + 1)"
  unfolding YearFromDay_def by (rule year_up_spec) (rule year_down_spec)


lemma DayFromYear_mono: "y \<le> y' \<Longrightarrow> DayFromYear y \<le> DayFromYear y'"
proof (induction y' rule: int_ge_induct)
  case base
  show ?case by simp
next
  case (step i)
  then show ?case
    using DayFromYear_step [of i] by (simp add: DaysInYear_def split: if_splits)
qed

lemma YearFromDay_largest: "DayFromYear y \<le> d \<Longrightarrow> y \<le> YearFromDay d"
proof (rule ccontr)
  assume le: "DayFromYear y \<le> d" and "\<not> y \<le> YearFromDay d"
  then have "YearFromDay d + 1 \<le> y" by simp
  then have "DayFromYear (YearFromDay d + 1) \<le> DayFromYear y"
    by (rule DayFromYear_mono)
  with le YearFromDay_spec [of d] show False by simp
qed

lemma DayWithinYear_range:
  "0 \<le> DayWithinYear t \<and> DayWithinYear t < DaysInYear (YearFromTime t)"
  using YearFromDay_spec [of "Day_number t"] DayFromYear_step [of "YearFromTime t"]
  by (simp add: DayWithinYear_def YearFromTime_def)

lemma DateFromTime_range: "1 \<le> DateFromTime t \<and> DateFromTime t \<le> 31"
  using DayWithinYear_range [of t] DaysInYear_cases [of "YearFromTime t"]
  by (auto simp: DateFromTime_def MonthFromTime_def InLeapYear_def month_of_day_def
      month_start_def)

subsection \<open>The matcher finds only what the grammar describes\<close>

lemma strip_prefix_Some: "strip_prefix p s = Some r \<Longrightarrow> s = p @ r"
  by (induction p s rule: strip_prefix.induct) (auto split: if_splits)

lemma spaces1_Some: "spaces1 s = Some r \<Longrightarrow> \<exists>w. s = w @ r \<and> blanks w"
proof -
  assume a: "spaces1 s = Some r"
  then obtain c cs where s: "s = c # cs" and c: "is_space c" and r: "r = dropWhile is_space cs"
    by (auto simp: spaces1_def split: list.splits if_splits)
  have "s = (c # takeWhile is_space cs) @ r"
    by (simp add: s r)
  moreover have "blanks (c # takeWhile is_space cs)"
    using c by (auto simp: blanks_def dest: set_takeWhileD)
  ultimately show ?thesis by blast
qed

lemma unit_name_word: "unit_name u \<in> unit_words"
  by (cases u) (simp_all add: unit_words_def)

lemma match_unit_Some: "match_unit us s = Some (u, r) \<Longrightarrow> s = unit_name u @ r"
  by (induction us) (auto split: option.splits dest: strip_prefix_Some)

lemma optional_split: "\<exists>sfx. r = sfx @ optional x r \<and> (sfx = [] \<or> sfx = [x])"
  by (cases r) (auto simp: optional_def)

lemma plural_at_Some:
  assumes "plural_at us s = Some (n, u)"
  shows "\<exists>ds w1 sfx w2 post.
           s = ds @ w1 @ unit_name u @ sfx @ w2 @ ''ago'' @ post \<and>
           digits ds \<and> parse_nat ds = n \<and> blanks w1 \<and> (sfx = [] \<or> sfx = ''s'') \<and> blanks w2"
proof -
  let ?ds = "takeWhile is_digit s"
  from assms have ne: "?ds \<noteq> []"
    by (auto simp: plural_at_def Let_def split: if_splits)
  from assms ne obtain r1 r2 r3 r4 where
    1: "spaces1 (dropWhile is_digit s) = Some r1"
    and 2: "match_unit us r1 = Some (u, r2)"
    and 3: "spaces1 (optional (CHR ''s'') r2) = Some r3"
    and 4: "strip_prefix ''ago'' r3 = Some r4"
    and n: "n = parse_nat ?ds"
    by (auto simp: plural_at_def Let_def split: option.splits if_splits)
  from 1 obtain w1 where w1: "dropWhile is_digit s = w1 @ r1" "blanks w1"
    using spaces1_Some by blast
  from 2 have u: "r1 = unit_name u @ r2"
    by (rule match_unit_Some)
  obtain sfx where sfx: "r2 = sfx @ optional (CHR ''s'') r2" "sfx = [] \<or> sfx = ''s''"
    using optional_split [of r2 "CHR ''s''"] by auto
  from 3 obtain w2 where w2: "optional (CHR ''s'') r2 = w2 @ r3" "blanks w2"
    using spaces1_Some by blast
  from 4 have a: "r3 = ''ago'' @ r4"
    by (rule strip_prefix_Some)
  have "s = ?ds @ dropWhile is_digit s" by simp
  also have "\<dots> = ?ds @ w1 @ unit_name u @ sfx @ w2 @ ''ago'' @ r4"
    using w1(1) u sfx(1) w2(1) a by (metis append.assoc)
  finally have "s = ?ds @ w1 @ unit_name u @ sfx @ w2 @ ''ago'' @ r4" .
  moreover have "digits ?ds"
    using ne by (auto simp: digits_def dest: set_takeWhileD)
  ultimately show ?thesis
    using n w1(2) sfx(2) w2(2) by blast
qed

lemma plural_search_Some:
  "plural_search us s = Some (n, u) \<Longrightarrow> amount_phrase_within s"
proof (induction s)
  case Nil
  then show ?case by simp
next
  case (Cons c cs)
  show ?case
  proof (cases "plural_at us (c # cs)")
    case None
    with Cons have "amount_phrase_within cs" by simp
    then obtain pre ds w1 w sfx w2 post where
      "cs = pre @ ds @ w1 @ w @ sfx @ w2 @ ''ago'' @ post \<and>
        digits ds \<and> blanks w1 \<and> w \<in> unit_words \<and>
        (sfx = [] \<or> sfx = ''s'') \<and> blanks w2"
      unfolding amount_phrase_within_def by blast
    then have "c # cs = (c # pre) @ ds @ w1 @ w @ sfx @ w2 @ ''ago'' @ post \<and>
        digits ds \<and> blanks w1 \<and> w \<in> unit_words \<and>
        (sfx = [] \<or> sfx = ''s'') \<and> blanks w2"
      by simp
    then show ?thesis
      unfolding amount_phrase_within_def by blast
  next
    case (Some r)
    with Cons.prems have "plural_at us (c # cs) = Some (n, u)" by simp
    from plural_at_Some [OF this] obtain ds w1 sfx w2 post where
      s: "c # cs = ds @ w1 @ unit_name u @ sfx @ w2 @ ''ago'' @ post"
      and p: "digits ds" "blanks w1" "sfx = [] \<or> sfx = ''s''" "blanks w2"
      by blast
    from s have "c # cs = [] @ ds @ w1 @ unit_name u @ sfx @ w2 @ ''ago'' @ post"
      by simp
    with p unit_name_word [of u] show ?thesis
      unfolding amount_phrase_within_def by blast
  qed
qed

text \<open>
  A text of the first form of the grammar begins with its amount, and one of the
  second form with its article.
\<close>

lemma space_not_digit: "is_space c \<Longrightarrow> \<not> is_digit c"
  by (auto simp: is_space_def is_digit_def)

lemma plural_phrase_amount:
  assumes "plural_phrase s"
  shows "takeWhile is_digit s \<noteq> [] \<and> 0 < parse_nat (takeWhile is_digit s)"
proof -
  from assms obtain ds w1 r where s: "s = ds @ w1 @ r"
    and d: "digits ds" and p: "0 < parse_nat ds" and b: "blanks w1"
    unfolding plural_phrase_def by blast
  from b obtain c cs where w: "w1 = c # cs" and c: "is_space c"
    by (cases w1) (auto simp: blanks_def)
  have "takeWhile is_digit s = ds @ takeWhile is_digit (w1 @ r)"
    unfolding s using d by (intro takeWhile_append2) (simp add: digits_def)
  also have "\<dots> = ds"
    using w space_not_digit [OF c] by simp
  finally show ?thesis
    using d p by (simp add: digits_def)
qed

lemma article_phrase_first: "article_phrase s \<Longrightarrow> \<exists>r. s = CHR ''a'' # r"
  by (auto simp: article_phrase_def)

lemma single_match_Some:
  assumes "single_match us s = Some u"
  shows "article_phrase s"
proof -
  from assms obtain r0 r1 r2 r3 where
    0: "strip_prefix ''a'' s = Some r0"
    and 1: "spaces1 (optional (CHR ''n'') r0) = Some r1"
    and 2: "match_unit us r1 = Some (u, r2)"
    and 3: "spaces1 r2 = Some r3"
    and 4: "r3 = ''ago''"
    by (auto simp: single_match_def split: option.splits if_splits)
  from 0 have s: "s = ''a'' @ r0" by (rule strip_prefix_Some)
  obtain sfx where sfx: "r0 = sfx @ optional (CHR ''n'') r0" "sfx = [] \<or> sfx = ''n''"
    using optional_split [of r0 "CHR ''n''"] by auto
  from 1 obtain w1 where w1: "optional (CHR ''n'') r0 = w1 @ r1" "blanks w1"
    using spaces1_Some by blast
  from 2 have u: "r1 = unit_name u @ r2" by (rule match_unit_Some)
  from 3 obtain w2 where w2: "r2 = w2 @ r3" "blanks w2"
    using spaces1_Some by blast
  have "s = (''a'' @ sfx) @ w1 @ unit_name u @ w2 @ ''ago''"
    using s sfx(1) w1(1) u w2(1) 4 by (metis append.assoc)
  moreover have "''a'' @ sfx = ''a'' \<or> ''a'' @ sfx = ''an''"
    using sfx(2) by auto
  ultimately show ?thesis
    unfolding article_phrase_def using w1(2) w2(2) unit_name_word [of u] by blast
qed

lemma empty_text: "trim (toLowerCase []) = []"
  by (simp add: trim_def toLowerCase_def)

lemma gibberish_text: "trim (toLowerCase ''gibberish'') = ''gibberish''"
  by (simp add: trim_def toLowerCase_def lower_char_def is_space_def
      ascii_upper_letters_def ascii_lower_letters_def latin1_upper_letters_def latin1_lower_letters_def)

lemma gibberish_no_amount: "plural_search all_units ''gibberish'' = None"
  by (simp add: plural_at_def is_digit_def)

lemma gibberish_no_article: "single_match all_units ''gibberish'' = None"
  by (simp add: single_match_def)

lemma gibberish_instant: "relative_instant tz ''gibberish'' now = Some now"
  by (simp only: relative_instant_def gibberish_text Let_def gibberish_no_amount
      gibberish_no_article option.case)

lemma two_months_text: "plural_search all_units (trim (toLowerCase ''2 months ago'')) = Some (2, Month)"
  by (simp add: all_units_def plural_at_def is_digit_def is_space_def spaces1_def optional_def
      parse_nat_def digit_val_def trim_def toLowerCase_def lower_char_def
      ascii_upper_letters_def ascii_lower_letters_def latin1_upper_letters_def latin1_lower_letters_def)

lemma two_weeks_text: "plural_search all_units (trim (toLowerCase ''2 weeks ago'')) = Some (2, Week)"
  by (simp add: all_units_def plural_at_def is_digit_def is_space_def spaces1_def optional_def
      parse_nat_def digit_val_def trim_def toLowerCase_def lower_char_def
      ascii_upper_letters_def ascii_lower_letters_def latin1_upper_letters_def latin1_lower_letters_def)

lemmas text_defs =
  trim_def toLowerCase_def lower_char_def is_space_def
  ascii_upper_letters_def ascii_lower_letters_def latin1_upper_letters_def latin1_lower_letters_def

lemmas match_defs =
  all_units_def plural_at_def is_digit_def is_space_def spaces1_def optional_def
  parse_nat_def digit_val_def

lemma edited_text:
  "trim (toLowerCase ''Edited 3 days ago on Google'') = ''edited 3 days ago on google''"
  by (simp add: text_defs)

lemma edited_not_plural: "\<not> plural_phrase ''edited 3 days ago on google''"
  using plural_phrase_amount [of "''edited 3 days ago on google''"]
  by (auto simp: is_digit_def)

lemma edited_not_article: "\<not> article_phrase ''edited 3 days ago on google''"
  using article_phrase_first [of "''edited 3 days ago on google''"] by auto

lemma edited_amount: "plural_search all_units ''edited 3 days ago on google'' = Some (3, Day)"
  by (simp add: match_defs)

lemma zero_days_text: "trim (toLowerCase ''0 days ago'') = ''0 days ago''"
  by (simp add: text_defs)

lemma zero_days_not_plural: "\<not> plural_phrase ''0 days ago''"
  using plural_phrase_amount [of "''0 days ago''"]
  by (auto simp: is_digit_def parse_nat_def digit_val_def)

lemma zero_days_not_article: "\<not> article_phrase ''0 days ago''"
  using article_phrase_first [of "''0 days ago''"] by auto

lemma zero_days_amount: "plural_search all_units ''0 days ago'' = Some (0, Day)"
  by (simp add: match_defs)

lemma last_tuesday_text: "trim (toLowerCase ''Last Tuesday '') = ''last tuesday''"
  by (simp add: text_defs)

lemma no_digit_no_amount:
  assumes "\<forall>c \<in> set s. \<not> is_digit c"
  shows "\<not> amount_phrase_within s"
proof
  assume "amount_phrase_within s"
  then obtain pre ds rest where s: "s = pre @ ds @ rest" and d: "digits ds"
    unfolding amount_phrase_within_def by blast
  from d obtain c where "c \<in> set ds" "is_digit c"
    unfolding digits_def by (cases ds) auto
  with assms s show False by auto
qed

lemma last_tuesday_no_amount: "\<not> amount_phrase_within ''last tuesday''"
  by (rule no_digit_no_amount) (simp add: is_digit_def)

lemma last_tuesday_no_article: "\<not> article_phrase ''last tuesday''"
  using article_phrase_first [of "''last tuesday''"] by auto

subsection \<open>The extractor\<close>

lemma extractCard_emitted:
  "extractCard idx clock c \<noteq> None \<longleftrightarrow> resolve_stars c \<in> {1..5}"
  by (simp add: extractCard_def Let_def)

lemma extractCard_stars:
  "extractCard idx clock c = Some r \<Longrightarrow> raw_stars r = resolve_stars c \<and> raw_stars r \<in> {1..5}"
  by (auto simp: extractCard_def Let_def split: if_splits)

lemma extractCard_legacy_emitted:
  "extractCard_legacy c \<noteq> None \<longleftrightarrow>
     resolve_stars_legacy c \<in> {1..5} \<and> (\<exists>a. data_review_id c = Some a \<and> a \<noteq> [])"
  by (auto simp: extractCard_legacy_def Let_def split: option.splits)

lemma extractCard_legacy_stars:
  "extractCard_legacy c = Some r \<Longrightarrow> raw_stars r \<in> {1..5}"
  by (auto simp: extractCard_legacy_def Let_def split: if_splits)

lemma set_map_filter: "set (List.map_filter f xs) = {y. \<exists>x \<in> set xs. f x = Some y}"
  by (induction xs) (auto simp: List.map_filter_def)

lemma pageReviews_stars:
  assumes "r \<in> set (pageReviews sc maxItems v)"
  shows "raw_stars r \<in> {1..5}"
proof (cases sc)
  case MainScript
  with assms obtain idx clock c where "extractCard idx clock c = Some r"
    by (auto simp: pageReviews_def Let_def extractCards_def set_map_filter)
  then show ?thesis using extractCard_stars by blast
next
  case OlderScript
  with assms obtain c where "extractCard_legacy c = Some r"
    by (auto simp: pageReviews_def Let_def extractCards_legacy_def set_map_filter)
  then show ?thesis by (rule extractCard_legacy_stars)
qed

lemma session_stars_valid: "stars_valid (session sc tz maxItems visits)"
proof (rule session_preserves [where P = stars_valid])
  show "stars_valid initial_state"
    by (simp add: stars_valid_def initial_state_def)
next
  fix v and x :: "raw_review \<times> int" and s
  assume "fst x \<in> set (pageReviews sc maxItems v)" and "stars_valid s"
  then show "stars_valid (fst (offer sc tz maxItems x s))"
    by (intro offer_stars_valid pageReviews_stars)
qed

subsection \<open>The example pages evaluated\<close>

lemmas extract_defs =
  extractCard_def blank_card_def Let_def resolve_stars_def
  number_or_zero_def resolve_reviewId_def resolve_name_def nameEl_def or_else_def trim_def
  is_space_def resolve_dateText_def resolve_text_def textEl_text_def longest_step_def
  resolve_likes_def info_step_def first_number_def is_digit_def parse_nat_def digit_val_def
  review_count_at_def ignoreCase_def fold_char_def ascii_upper_letters_def
  ascii_lower_letters_def spaces1_def

lemma extract_jane: "extractCard 0 clock card_jane = Some demo_raw"
  by (simp add: card_jane_def demo_raw_def extract_defs)

lemma extract_unrated: "extractCard idx clock card_unrated = None"
  by (simp add: card_unrated_def extract_defs)

lemma demo_pageReviews: "extractCards clk [card_jane, card_unrated] = [demo_raw]"
  by (simp add: extractCards_def extract_jane extract_unrated List.map_filter_def upt_rec)

lemma demo_scroll:
  "scroll_to_load 5 (\<lambda>k. 2) =
     (\<lparr>scrollAttempt = 3, lastReviewCount = 2, noNewReviewsCount = 3\<rparr>, NoProgress)"
  using constant_count_stops [of 2 5] by simp

lemma demo_iso: "iso_string 1792454400123 = ''2026-10-20T00:00:00.123Z''"
  by (simp add: iso_string_def iso_year_def YearFromTime_def YearFromDay_def Day_number_def
      msPerDay_def DayFromYear_def year_up.simps year_down.simps MonthFromTime_def DayWithinYear_def InLeapYear_def
      DaysInYear_def month_of_day_def DateFromTime_def month_start_def HourFromTime_def
      MinFromTime_def SecFromTime_def msFromTime_def msPerHour_def msPerMinute_def msPerSecond_def
      pad_left_def digit_char_def)

lemmas iso_defs =
  iso_string_def iso_year_def YearFromTime_def YearFromDay_def Day_number_def
  msPerDay_def DayFromYear_def year_up.simps year_down.simps MonthFromTime_def DayWithinYear_def
  InLeapYear_def DaysInYear_def month_of_day_def DateFromTime_def month_start_def HourFromTime_def
  MinFromTime_def SecFromTime_def msFromTime_def msPerHour_def msPerMinute_def msPerSecond_def
  pad_left_def digit_char_def

lemmas zone_defs =
  LocalTime_def UTC_time_def utc_zone_def one_change_zone_def london_2026_def new_york_2026_def
  TimeClip_def msPerDay_def maxTime_def

lemma demo_published:
  "parseRelativeDate utc_zone ''2 weeks ago'' 1793664000123 = Inr ''2026-10-20T00:00:00.123Z''"
proof -
  have "relative_instant utc_zone ''2 weeks ago'' 1793664000123 =
      TimeClip (UTC_time utc_zone (LocalTime utc_zone 1793664000123 - 14 * msPerDay))"
    using setDate_shift [of utc_zone 1793664000123 "2 * 7"]
    by (simp add: relative_instant_def two_weeks_text)
  also have "\<dots> = Some 1792454400123"
    by (simp add: zone_defs)
  finally show ?thesis
    by (simp add: parseRelativeDate_def toISOString_def demo_iso)
qed

text \<open>
  A review text that quotes a relative time, read on 2026-11-03 in UTC; an amount of
  zero, read in London half an hour after the end of summer time; and two weeks, read
  in New York two days after the end of summer time.
\<close>

lemma edited_instant:
  "relative_instant utc_zone ''Edited 3 days ago on Google'' 1793664000123 = Some 1793404800123"
proof -
  have "relative_instant utc_zone ''Edited 3 days ago on Google'' 1793664000123 =
      TimeClip (UTC_time utc_zone (LocalTime utc_zone 1793664000123 - 3 * msPerDay))"
    using setDate_shift [of utc_zone 1793664000123 3]
    by (simp only: relative_instant_def edited_text edited_amount Let_def
        option.case prod.case of_nat_numeral subtract_amount.simps)
  also have "\<dots> = Some 1793404800123"
    by (simp add: zone_defs)
  finally show ?thesis .
qed

lemma edited_iso: "iso_string 1793404800123 = ''2026-10-31T00:00:00.123Z''"
  by (simp add: iso_defs)

lemma demo_now_iso: "iso_string 1793664000123 = ''2026-11-03T00:00:00.123Z''"
  by (simp add: iso_defs)

lemma london_zero_days:
  "relative_instant london_2026 ''0 days ago'' 1792891800000 = Some 1792888200000"
proof -
  have "relative_instant london_2026 ''0 days ago'' 1792891800000 =
      TimeClip (UTC_time london_2026 (LocalTime london_2026 1792891800000))"
    using subtract_zero [of london_2026 Day 1792891800000]
    by (simp only: relative_instant_def zero_days_text zero_days_amount Let_def
        option.case prod.case of_nat_0)
  also have "\<dots> = Some 1792888200000"
    by (simp add: zone_defs)
  finally show ?thesis .
qed

lemma london_iso:
  "iso_string 1792888200000 = ''2026-10-25T00:30:00.000Z''"
  "iso_string 1792891800000 = ''2026-10-25T01:30:00.000Z''"
  by (simp_all add: iso_defs numeral_2_eq_2)

lemma new_york_two_weeks:
  "relative_instant new_york_2026 ''2 weeks ago'' 1793707200000 = Some 1792494000000"
proof -
  have "relative_instant new_york_2026 ''2 weeks ago'' 1793707200000 =
      TimeClip (UTC_time new_york_2026 (LocalTime new_york_2026 1793707200000 - 14 * msPerDay))"
    using setDate_shift [of new_york_2026 1793707200000 "2 * 7"]
    by (simp add: relative_instant_def two_weeks_text)
  also have "\<dots> = Some 1792494000000"
    by (simp add: zone_defs)
  finally show ?thesis .
qed

lemma new_york_local: "LocalTime new_york_2026 1793707200000 = 1793689200000"
  by (simp add: zone_defs)

lemma new_york_fields:
  "YearFromTime 1793689200000 = 2026"
  "MonthFromTime 1793689200000 = 10"
  "DateFromTime 1793689200000 = 3"
  "TimeWithinDay 1793689200000 = 25200000"
  by (simp_all add: YearFromTime_def YearFromDay_def Day_number_def TimeWithinDay_def
      msPerDay_def DayFromYear_def year_up.simps year_down.simps MonthFromTime_def DayWithinYear_def
      InLeapYear_def DaysInYear_def month_of_day_def DateFromTime_def month_start_def)

lemma new_york_september: "MakeDate (MakeDay 2026 8 3) 25200000 = 1788418800000"
  by (simp add: MakeDate_def MakeDay_def DayFromYear_def DaysInYear_def month_start_def msPerDay_def)

lemma new_york_two_months:
  "relative_instant new_york_2026 ''2 months ago'' 1793707200000 = Some 1788433200000"
proof -
  have "relative_instant new_york_2026 ''2 months ago'' 1793707200000 =
      setMonth new_york_2026 (getMonth new_york_2026 1793707200000 - 2) 1793707200000"
    by (simp add: relative_instant_def two_months_text)
  also have "\<dots> = TimeClip (UTC_time new_york_2026 1788418800000)"
    by (simp add: setMonth_def getMonth_def Let_def new_york_local new_york_fields
        new_york_september)
  also have "\<dots> = Some 1788433200000"
    by (simp add: zone_defs)
  finally show ?thesis .
qed

lemma new_york_iso:
  "iso_string 1788433200000 = ''2026-09-03T11:00:00.000Z''"
  "iso_string 1792494000000 = ''2026-10-20T11:00:00.000Z''"
  by (simp_all add: iso_defs numeral_2_eq_2)

lemma new_york_within_a_day: "zone_within_a_day new_york_2026"
  by (simp add: zone_within_a_day_def new_york_2026_def one_change_zone_def msPerDay_def)

lemma demo_offer:
  "offer MainScript utc_zone 5 (demo_raw, 1793664000123) initial_state = (demo_state, Accepted)"
proof -
  have "to_review MainScript demo_raw ''2026-10-20T00:00:00.123Z'' = demo_review"
    by (simp add: to_review_def demo_raw_def demo_review_def truthy_def)
  moreover have "raw_dateText demo_raw = ''2 weeks ago''"
    by (simp add: demo_raw_def)
  moreover have "raw_reviewId demo_raw = ''ChZDSUhNMG9nS0VJQ0FnSUQ''"
    by (simp add: demo_raw_def)
  ultimately show ?thesis
    by (simp add: offer_def Let_def initial_state_def demo_published demo_state_def)
qed

lemma demo_session: "session MainScript utc_zone 5 [demo_visit] = demo_state"
proof -
  have "pageReviews MainScript 5 demo_visit = [demo_raw]"
    by (simp add: pageReviews_def demo_visit_def demo_scroll demo_pageReviews)
  then have "requestHandler MainScript utc_zone 5 demo_visit initial_state = (demo_state, None)"
    using demo_offer
    by (simp add: requestHandler_def Let_def initial_state_def demo_visit_def)
  then show ?thesis
    by (simp add: session_def)
qed

section \<open>The claims\<close>

text \<open>
  Claim C1, as amended. In \<open>main.ts\<close> a card yields a record exactly when its resolved
  rating is 1 to 5, and the record carries that rating; a card with no rating indicator
  yields none. In the older script a card yields a record exactly when its rating is
  1 to 5 and its \<^verbatim>\<open>data-review-id\<close> is not empty. In both scripts every review of the
  accumulated collection has a rating in 1 to 5.
\<close>

theorem record_emitted_iff_rating_in_range:
  "(extractCard idx clock c \<noteq> None \<longleftrightarrow> resolve_stars c \<in> {1..5})
   \<and> (\<forall>r. extractCard idx clock c = Some r \<longrightarrow> raw_stars r = resolve_stars c)
   \<and> (starEl c' = None \<longrightarrow> extractCard idx clock c' = None)
   \<and> (extractCard_legacy c \<noteq> None \<longleftrightarrow>
        resolve_stars_legacy c \<in> {1..5} \<and> (\<exists>a. data_review_id c = Some a \<and> a \<noteq> []))
   \<and> (starEl_span c' = None \<and> filledStars c' = 0 \<longrightarrow> extractCard_legacy c' = None)
   \<and> (\<forall>r \<in> set (collectedReviews (session sc tz maxItems visits)). stars r \<in> {1..5})"
proof -
  have a: "starEl c' = None \<longrightarrow> extractCard idx clock c' = None"
    by (simp add: extractCard_def Let_def resolve_stars_def number_or_zero_def)
  have b: "starEl_span c' = None \<and> filledStars c' = 0 \<longrightarrow> extractCard_legacy c' = None"
    by (simp add: extractCard_legacy_def Let_def resolve_stars_legacy_def number_or_zero_def)
  have c: "\<forall>r \<in> set (collectedReviews (session sc tz maxItems visits)). stars r \<in> {1..5}"
    using session_stars_valid [of sc tz maxItems visits] by (simp add: stars_valid_def)
  from a b c show ?thesis
    using extractCard_emitted [of idx clock c] extractCard_legacy_emitted [of c]
      extractCard_stars [of idx clock c]
    by blast
qed

theorem record_emitted_iff_rating_in_range_witness:
  "extractCard 0 1793664000123 card_jane = Some demo_raw \<and> resolve_stars card_jane = 5
   \<and> starEl card_unrated = None \<and> extractCard 1 1793664000123 card_unrated = None
   \<and> extractCard_legacy card_jane \<noteq> None
   \<and> extractCard_legacy card_unrated = None
   \<and> collectedReviews (session MainScript utc_zone 5 [demo_visit]) = [demo_review]
   \<and> stars demo_review \<in> {1..5}"
proof -
  have j: "extractCard 0 1793664000123 card_jane = Some demo_raw" by (rule extract_jane)
  have s: "collectedReviews (session MainScript utc_zone 5 [demo_visit]) = [demo_review]"
    by (simp add: demo_session demo_state_def)
  have u: "starEl card_unrated = None" "starEl_span card_unrated = None \<and> filledStars card_unrated = 0"
    by (simp_all add: card_unrated_def blank_card_def)
  have l: "resolve_stars_legacy card_jane \<in> {1..5} \<and> (\<exists>a. data_review_id card_jane = Some a \<and> a \<noteq> [])"
    by (simp add: card_jane_def extract_defs resolve_stars_legacy_def)
  from record_emitted_iff_rating_in_range [of 0 1793664000123 card_jane card_unrated MainScript utc_zone 5 "[demo_visit]"]
    record_emitted_iff_rating_in_range [of 1 1793664000123 card_jane card_unrated MainScript utc_zone 5 "[demo_visit]"]
    j s u l
  show ?thesis
    by (simp add: demo_raw_def)
qed

text \<open>
  Claim C1 as stated fails on the older script: a card rated 4 whose \<^verbatim>\<open>data-review-id\<close>
  is empty yields no record, so the rating is not the only field whose absence discards
  a card.
\<close>

theorem older_script_drops_rated_card_counterexample:
  "resolve_stars_legacy card_no_id = 4 \<and> extractCard_legacy card_no_id = None"
  by (simp add: card_no_id_def extract_defs resolve_stars_legacy_def extractCard_legacy_def)

text \<open>
  Claim C2. For a positive cap the accumulated collection of a session holds at most
  \<open>maxItems\<close> reviews, after any runs of the handler; from a state within the cap the
  accumulation loop stays within it on any offered records (so at every point of a run);
  and at the cap an offered record is rejected whatever its identity, and the loop ends.
\<close>

theorem accumulated_size_within_cap:
  assumes "0 < maxItems"
  shows "int (length (collectedReviews (session sc tz maxItems visits))) \<le> maxItems
    \<and> (int (length (collectedReviews st)) \<le> maxItems \<longrightarrow>
         int (length (collectedReviews (fst (accumulate sc tz maxItems st xs)))) \<le> maxItems)
    \<and> (int (length (collectedReviews st)) = maxItems \<longrightarrow>
         offer sc tz maxItems x st = (st, CapFull)
         \<and> accumulate sc tz maxItems st (x # xs) = (st, None))"
proof (intro conjI impI)
  have "within_cap maxItems (session sc tz maxItems visits)"
  proof (rule session_preserves [where P = "within_cap maxItems"])
    show "within_cap maxItems initial_state"
      using assms by (simp add: within_cap_def initial_state_def)
  qed (rule offer_within_cap)
  then show "int (length (collectedReviews (session sc tz maxItems visits))) \<le> maxItems"
    by (simp add: within_cap_def)
next
  assume "int (length (collectedReviews st)) \<le> maxItems"
  then have "within_cap maxItems st" by (simp add: within_cap_def)
  then have "within_cap maxItems (fst (accumulate sc tz maxItems st xs))"
    by (rule accumulate_preserves [where P = "within_cap maxItems", rotated]) (rule offer_within_cap)
  then show "int (length (collectedReviews (fst (accumulate sc tz maxItems st xs)))) \<le> maxItems"
    by (simp add: within_cap_def)
next
  assume eq: "int (length (collectedReviews st)) = maxItems"
  then show "offer sc tz maxItems x st = (st, CapFull)"
    by (simp add: offer_at_cap)
  then show "accumulate sc tz maxItems st (x # xs) = (st, None)"
    by simp
qed

theorem accumulated_size_within_cap_witness:
  "0 < (1::int)
   \<and> int (length (collectedReviews (session MainScript utc_zone 1 [demo_visit, demo_visit]))) \<le> 1
   \<and> int (length (collectedReviews demo_state)) = 1
   \<and> int (length (collectedReviews (fst (accumulate MainScript utc_zone 1 demo_state
          [(other_raw, 1793664000123)])))) \<le> 1
   \<and> offer MainScript utc_zone 1 (other_raw, 1793664000123) demo_state = (demo_state, CapFull)"
  using accumulated_size_within_cap
    [of 1 MainScript utc_zone "[demo_visit, demo_visit]" demo_state "[(other_raw, 1793664000123)]"
        "(other_raw, 1793664000123)"]
  by (simp add: demo_state_def)

text \<open>
  Claim C3. The identities of the accumulated collection of a session are pairwise
  distinct, over any number of runs of the handler on the same cards; offering a record
  whose identity is already in the collection leaves the state as it is (as a duplicate,
  or because the cap is reached).
\<close>

theorem accumulated_identities_distinct:
  "distinct (map reviewId (collectedReviews (session sc tz maxItems visits)))
   \<and> (raw_reviewId rv \<in> set (map reviewId (collectedReviews (session sc tz maxItems visits))) \<longrightarrow>
        offer sc tz maxItems (rv, now) (session sc tz maxItems visits) =
          (session sc tz maxItems visits,
           if int (length (collectedReviews (session sc tz maxItems visits))) \<ge> maxItems
           then CapFull else Duplicate))"
proof -
  have s: "ids_sound (session sc tz maxItems visits)"
    by (rule session_ids_sound)
  show ?thesis
    using s by (auto simp: ids_sound_def offer_def Let_def)
qed

theorem accumulated_identities_distinct_witness:
  "distinct (map reviewId (collectedReviews (session MainScript utc_zone 5 [demo_visit, demo_visit])))
   \<and> raw_reviewId demo_raw \<in> set (map reviewId (collectedReviews (session MainScript utc_zone 5 [demo_visit])))
   \<and> offer MainScript utc_zone 5 (demo_raw, 1793664002123) (session MainScript utc_zone 5 [demo_visit])
        = (session MainScript utc_zone 5 [demo_visit], Duplicate)"
  using accumulated_identities_distinct [of MainScript utc_zone 5 "[demo_visit, demo_visit]"]
    accumulated_identities_distinct [of MainScript utc_zone 5 "[demo_visit]" demo_raw 1793664002123]
    demo_session
  by (simp add: demo_state_def demo_raw_def demo_review_def)

text \<open>
  Claim C4, as amended. For every clock reading \<open>now\<close> and every time zone,
  \<^verbatim>\<open>parseRelativeDate\<close> of the empty text and of \<^verbatim>\<open>gibberish\<close> returns \<open>now\<close> rendered,
  and so does every text that, trimmed and in lower case, neither holds an amount
  (any run of digits), a unit and \<^verbatim>\<open>ago\<close> anywhere in it nor is as a whole an article, a
  unit and \<^verbatim>\<open>ago\<close>; it returns a value, not an error.
\<close>

theorem unparseable_text_falls_back_to_now:
  "parseRelativeDate tz [] now = Inr (iso_string now)
    \<and> parseRelativeDate tz ''gibberish'' now = Inr (iso_string now)
    \<and> (\<not> amount_phrase_within (trim (toLowerCase txt)) \<and> \<not> article_phrase (trim (toLowerCase txt)) \<longrightarrow>
         relative_instant tz txt now = Some now
         \<and> parseRelativeDate tz txt now = Inr (iso_string now))"
proof (intro conjI impI)
  show "parseRelativeDate tz [] now = Inr (iso_string now)"
    by (simp add: parseRelativeDate_def relative_instant_def empty_text single_match_def toISOString_def)
  show "parseRelativeDate tz ''gibberish'' now = Inr (iso_string now)"
    by (simp add: parseRelativeDate_def gibberish_instant toISOString_def)
next
  assume g: "\<not> amount_phrase_within (trim (toLowerCase txt)) \<and> \<not> article_phrase (trim (toLowerCase txt))"
  let ?s = "trim (toLowerCase txt)"
  have "plural_search all_units ?s = None"
  proof (cases "plural_search all_units ?s")
    case (Some r)
    obtain n u where "r = (n, u)" by (cases r)
    with Some g plural_search_Some [of all_units ?s n u] show ?thesis by simp
  qed
  moreover have "single_match all_units ?s = None"
    using g single_match_Some [of all_units ?s] by (cases "single_match all_units ?s") auto
  ultimately show r: "relative_instant tz txt now = Some now"
    by (simp add: relative_instant_def)
  show "parseRelativeDate tz txt now = Inr (iso_string now)"
    by (simp add: parseRelativeDate_def r toISOString_def)
qed

theorem unparseable_text_falls_back_to_now_witness:
  "\<not> amount_phrase_within (trim (toLowerCase ''Last Tuesday ''))
   \<and> \<not> article_phrase (trim (toLowerCase ''Last Tuesday ''))
   \<and> relative_instant new_york_2026 ''Last Tuesday '' 1793707200000 = Some 1793707200000
   \<and> parseRelativeDate new_york_2026 ''Last Tuesday '' 1793707200000 = Inr (iso_string 1793707200000)
   \<and> parseRelativeDate new_york_2026 ''gibberish'' 1793707200000 = Inr (iso_string 1793707200000)
   \<and> parseRelativeDate new_york_2026 [] 1793707200000 = Inr (iso_string 1793707200000)"
  using unparseable_text_falls_back_to_now [of new_york_2026 1793707200000 "''Last Tuesday ''"]
    last_tuesday_no_amount last_tuesday_no_article
  by (simp add: last_tuesday_text)

text \<open>
  Claim C4, as stated, does not hold. The text \<^verbatim>\<open>Edited 3 days ago on Google\<close> is as a
  whole of neither form of the grammar, and the normalizer reads the amount inside it:
  on 2026-11-03 it returns 2026-10-31. The text \<^verbatim>\<open>0 days ago\<close> has no positive amount,
  and the normalizer sets the day of the month that it has just read: in London at
  01:30 UTC on 2026-10-25, half an hour after the clocks went back, it returns 00:30 UTC.
\<close>

theorem phrase_inside_text_is_parsed_counterexample:
  "\<not> plural_phrase (trim (toLowerCase ''Edited 3 days ago on Google''))
   \<and> \<not> article_phrase (trim (toLowerCase ''Edited 3 days ago on Google''))
   \<and> relative_instant utc_zone ''Edited 3 days ago on Google'' 1793664000123 = Some 1793404800123
   \<and> parseRelativeDate utc_zone ''Edited 3 days ago on Google'' 1793664000123
        = Inr ''2026-10-31T00:00:00.123Z''
   \<and> iso_string 1793664000123 = ''2026-11-03T00:00:00.123Z''
   \<and> \<not> plural_phrase (trim (toLowerCase ''0 days ago''))
   \<and> \<not> article_phrase (trim (toLowerCase ''0 days ago''))
   \<and> relative_instant london_2026 ''0 days ago'' 1792891800000 = Some 1792888200000
   \<and> parseRelativeDate london_2026 ''0 days ago'' 1792891800000
        = Inr ''2026-10-25T00:30:00.000Z''
   \<and> iso_string 1792891800000 = ''2026-10-25T01:30:00.000Z''"
  by (simp add: edited_text edited_not_plural edited_not_article edited_instant edited_iso
      demo_now_iso zero_days_text zero_days_not_plural zero_days_not_article london_zero_days
      london_iso parseRelativeDate_def toISOString_def)



text \<open>
  Claim C6. For a positive cap the scroll loop makes at most
  \<open>ceil(maxItems / 10) + 5\<close> rounds, whatever the page does; it stops with
  \<^verbatim>\<open>IterationLimit\<close> exactly when it has made that many; and it does so on a page whose
  count changes in every round and stays below the cap.
\<close>

theorem scroll_rounds_bounded:
  assumes "0 < maxItems"
  shows "maxScrollAttempts maxItems = (maxItems + 9) div 10 + 5
    \<and> int (scrollAttempt (fst (scroll_to_load maxItems cnt))) \<le> maxScrollAttempts maxItems
    \<and> (snd (scroll_to_load maxItems cnt) = IterationLimit \<longleftrightarrow>
         int (scrollAttempt (fst (scroll_to_load maxItems cnt))) = maxScrollAttempts maxItems)
    \<and> ((\<forall>k. int k < maxScrollAttempts maxItems \<longrightarrow>
            int (cnt k) < maxItems \<and> cnt k \<noteq> (if k = 0 then 0 else cnt (k - 1))) \<longrightarrow>
         snd (scroll_to_load maxItems cnt) = IterationLimit)"
proof -
  have pos: "0 \<le> maxScrollAttempts maxItems"
    using assms unfolding maxScrollAttempts_ceiling by simp
  let ?st0 = "\<lparr>scrollAttempt = 0, lastReviewCount = 0, noNewReviewsCount = 0\<rparr>"
  have b: "int (scrollAttempt (fst (scroll_to_load maxItems cnt))) \<le> maxScrollAttempts maxItems
      \<and> (snd (scroll_to_load maxItems cnt) = IterationLimit \<longleftrightarrow>
         int (scrollAttempt (fst (scroll_to_load maxItems cnt))) = maxScrollAttempts maxItems)"
    unfolding scroll_to_load_def
    by (rule scroll_loop_bound) (use pos in simp)
  have p: "snd (scroll_to_load maxItems cnt) = IterationLimit"
    if "\<forall>k. int k < maxScrollAttempts maxItems \<longrightarrow>
            int (cnt k) < maxItems \<and> cnt k \<noteq> (if k = 0 then 0 else cnt (k - 1))"
    unfolding scroll_to_load_def
  proof (rule scroll_loop_progress)
    show "int (scrollAttempt ?st0) \<le> maxScrollAttempts maxItems"
      using pos by simp
    show "\<forall>k. scrollAttempt ?st0 \<le> k \<and> int k < maxScrollAttempts maxItems \<longrightarrow>
        int (cnt k) < maxItems \<and>
        cnt k \<noteq> (if k = scrollAttempt ?st0 then lastReviewCount ?st0 else cnt (k - 1))"
    proof (intro allI impI)
      fix k
      assume "scrollAttempt ?st0 \<le> k \<and> int k < maxScrollAttempts maxItems"
      with that [rule_format, of k]
      show "int (cnt k) < maxItems \<and>
        cnt k \<noteq> (if k = scrollAttempt ?st0 then lastReviewCount ?st0 else cnt (k - 1))"
        by (cases "k = 0") simp_all
    qed
  qed
  from b p show ?thesis
    by (simp add: maxScrollAttempts_ceiling)
qed

theorem scroll_rounds_bounded_witness:
  "0 < (100::int) \<and> maxScrollAttempts 100 = 15
   \<and> int (scrollAttempt (fst (scroll_to_load 100 (\<lambda>k. k + 1)))) = 15
   \<and> snd (scroll_to_load 100 (\<lambda>k. k + 1)) = IterationLimit"
proof -
  have m: "maxScrollAttempts 100 = 15"
    by (simp add: maxScrollAttempts_def)
  have "\<forall>k. int k < maxScrollAttempts 100 \<longrightarrow>
          int (k + 1) < 100 \<and> k + 1 \<noteq> (if k = 0 then 0 else k - 1 + 1)"
    by (auto simp: m)
  with scroll_rounds_bounded [of 100 "\<lambda>k. k + 1"] m show ?thesis
    by auto
qed

text \<open>
  Claim C7, as amended. Two runs of the extractor of \<open>main.ts\<close> on the same card, at
  any positions and clock readings, agree on whether a record is emitted and on every
  field other than the identity; they agree on the identity too when the card has a
  non-empty \<^verbatim>\<open>data-review-id\<close>; otherwise the identity of an emitted record is the
  synthetic one of the position and the clock.
\<close>

theorem extractor_deterministic_but_for_synthetic_identity:
  "map_option (\<lambda>r. r\<lparr>raw_reviewId := []\<rparr>) (extractCard i t c)
     = map_option (\<lambda>r. r\<lparr>raw_reviewId := []\<rparr>) (extractCard j u c)
   \<and> (data_review_id c = Some a \<and> a \<noteq> [] \<longrightarrow> extractCard i t c = extractCard j u c)
   \<and> ((data_review_id c = None \<or> data_review_id c = Some []) \<and> resolve_stars c \<in> {1..5} \<longrightarrow>
        map_option raw_reviewId (extractCard i t c) = Some (synthetic_id i t))"
  by (auto simp: extractCard_def Let_def resolve_reviewId_def)

theorem extractor_deterministic_but_for_synthetic_identity_witness:
  "extractCard 0 1793664000123 card_jane = extractCard 3 1793664002123 card_jane
   \<and> map_option (\<lambda>r. r\<lparr>raw_reviewId := []\<rparr>) (extractCard 0 1793664000123 card_anonymous)
      = map_option (\<lambda>r. r\<lparr>raw_reviewId := []\<rparr>) (extractCard 3 1793664002123 card_anonymous)
   \<and> map_option raw_reviewId (extractCard 3 1793664002123 card_anonymous)
      = Some ''g-3-1793664002123''"
proof -
  have 1: "data_review_id card_jane = Some ''ChZDSUhNMG9nS0VJQ0FnSUQ'' \<and> ''ChZDSUhNMG9nS0VJQ0FnSUQ'' \<noteq> []"
    by (simp add: card_jane_def blank_card_def)
  have 2: "(data_review_id card_anonymous = None \<or> data_review_id card_anonymous = Some [])
      \<and> resolve_stars card_anonymous \<in> {1..5}"
    by (simp add: card_anonymous_def extract_defs)
  have 3: "synthetic_id 3 1793664002123 = ''g-3-1793664002123''"
    by (simp add: synthetic_id_def show_int_def digit_char_def)
  from extractor_deterministic_but_for_synthetic_identity
         [of 0 1793664000123 card_jane 3 1793664002123 "''ChZDSUhNMG9nS0VJQ0FnSUQ''"]
       extractor_deterministic_but_for_synthetic_identity
         [of 0 1793664000123 card_anonymous 3 1793664002123]
       extractor_deterministic_but_for_synthetic_identity
         [of 3 1793664002123 card_anonymous 3 1793664002123]
       1 2 3
  show ?thesis by simp
qed

text \<open>
  Claim C7 as stated fails: the same card without \<^verbatim>\<open>data-review-id\<close>, read at the same
  position two seconds apart, gets two different identities.
\<close>

theorem extractor_identity_depends_on_clock_counterexample:
  "map_option raw_reviewId (extractCard 0 1793664000123 card_anonymous) = Some ''g-0-1793664000123''
   \<and> map_option raw_reviewId (extractCard 0 1793664002123 card_anonymous) = Some ''g-0-1793664002123''"
  by (simp add: card_anonymous_def extract_defs synthetic_id_def show_int_def digit_char_def)

text \<open>
  Claim C8. In every time zone whose offsets stay within a day of UTC, and for every
  clock reading \<open>now\<close> from 64 days after the earliest instant of a Date,
  \<^verbatim>\<open>parseRelativeDate\<close> returns for \<^verbatim>\<open>2 months ago\<close> an instant strictly earlier than
  for \<^verbatim>\<open>2 weeks ago\<close>, by 43 days or more; neither call throws. The offset of the zone
  may change between the dates.
\<close>

theorem two_months_before_two_weeks:
  assumes "zone_within_a_day tz"
    and "64 * msPerDay - maxTime \<le> now" and "now \<le> maxTime"
  shows "\<exists>a b. relative_instant tz ''2 months ago'' now = Some a
           \<and> relative_instant tz ''2 weeks ago'' now = Some b
           \<and> parseRelativeDate tz ''2 months ago'' now = Inr (iso_string a)
           \<and> parseRelativeDate tz ''2 weeks ago'' now = Inr (iso_string b)
           \<and> a < b \<and> a + 43 * msPerDay \<le> b"
proof -
  let ?lt = "LocalTime tz now"
  obtain k where k: "59 \<le> k" "k \<le> 62"
    and m: "setMonth tz (getMonth tz now - 2) now =
              TimeClip (UTC_time tz (?lt - k * msPerDay))"
    using setMonth_two_back by blast
  have w: "setDate tz (getDate tz now - 2 * 7) now =
             TimeClip (UTC_time tz (?lt - 14 * msPerDay))"
    using setDate_shift [of tz now "2 * 7"] by simp
  define a where "a = UTC_time tz (?lt - k * msPerDay)"
  define b where "b = UTC_time tz (?lt - 14 * msPerDay)"
  have ra: "relative_instant tz ''2 months ago'' now = TimeClip a"
    using m by (simp add: relative_instant_def two_months_text a_def)
  have rb: "relative_instant tz ''2 weeks ago'' now = TimeClip b"
    using w by (simp add: relative_instant_def two_weeks_text b_def)
  have pos: "0 < msPerDay" by (simp add: msPerDay_def)
  have u: "\<bar>utc_offset tz now\<bar> \<le> msPerDay"
    and la: "\<bar>local_offset tz (?lt - k * msPerDay)\<bar> \<le> msPerDay"
    and lb: "\<bar>local_offset tz (?lt - 14 * msPerDay)\<bar> \<le> msPerDay"
    using assms(1) by (simp_all add: zone_within_a_day_def)
  have k1: "59 * msPerDay \<le> k * msPerDay" and k2: "k * msPerDay \<le> 62 * msPerDay"
    using k pos by (simp_all add: mult_right_mono)
  have a_eq: "a = now + utc_offset tz now - k * msPerDay - local_offset tz (?lt - k * msPerDay)"
    by (simp add: a_def UTC_time_def LocalTime_def)
  have b_eq: "b = now + utc_offset tz now - 14 * msPerDay - local_offset tz (?lt - 14 * msPerDay)"
    by (simp add: b_def UTC_time_def LocalTime_def)
  have a_lo: "now - 64 * msPerDay \<le> a" and a_hi: "a \<le> now - 57 * msPerDay"
    using u la k1 k2 unfolding a_eq by linarith+
  have b_lo: "now - 16 * msPerDay \<le> b" and b_hi: "b \<le> now - 12 * msPerDay"
    using u lb unfolding b_eq by linarith+
  have ab: "a + 43 * msPerDay \<le> b"
    using la lb k1 unfolding a_eq b_eq by linarith
  have va: "TimeClip a = Some a"
    using assms(2,3) a_lo a_hi pos by (simp add: TimeClip_def abs_le_iff)
  have vb: "TimeClip b = Some b"
    using assms(2,3) b_lo b_hi pos by (simp add: TimeClip_def abs_le_iff)
  have "a < b"
    using ab pos by simp
  then show ?thesis
    using ra rb va vb ab by (simp add: parseRelativeDate_def toISOString_def)
qed

theorem two_months_before_two_weeks_witness:
  "zone_within_a_day new_york_2026
   \<and> 64 * msPerDay - maxTime \<le> 1793707200000 \<and> 1793707200000 \<le> maxTime
   \<and> relative_instant new_york_2026 ''2 months ago'' 1793707200000 = Some 1788433200000
   \<and> relative_instant new_york_2026 ''2 weeks ago'' 1793707200000 = Some 1792494000000
   \<and> parseRelativeDate new_york_2026 ''2 months ago'' 1793707200000
        = Inr ''2026-09-03T11:00:00.000Z''
   \<and> parseRelativeDate new_york_2026 ''2 weeks ago'' 1793707200000
        = Inr ''2026-10-20T11:00:00.000Z''
   \<and> 1788433200000 + 43 * msPerDay \<le> 1792494000000"
  using two_months_before_two_weeks [of new_york_2026 1793707200000]
    new_york_within_a_day new_york_two_weeks new_york_two_months new_york_iso
  by (auto simp: msPerDay_def maxTime_def)

text \<open>
  Claim C9, as amended. For a card with no author-name element, the name is the trimmed
  text of the first link when that has 2 to 59 code units, and \<^verbatim>\<open>Anonymous\<close> otherwise
  (no link, or a trimmed text shorter than 2 or longer than 59). For every card, when
  neither the author-name element nor the first link has a text within its bounds, the
  name is \<^verbatim>\<open>Anonymous\<close>.
\<close>

theorem author_name_from_first_link:
  "(nameEl c = None \<longrightarrow>
      resolve_name c =
        (case firstLink c of
           None \<Rightarrow> ''Anonymous''
         | Some t \<Rightarrow>
             if 2 \<le> length (trim t) \<and> length (trim t) \<le> 59 then trim t else ''Anonymous''))
   \<and> ((\<forall>t. nameEl c = Some t \<longrightarrow> length (trim t) = 0 \<or> 80 \<le> length (trim t)) \<and>
       (\<forall>t. firstLink c = Some t \<longrightarrow> length (trim t) < 2 \<or> 59 < length (trim t)) \<longrightarrow>
      resolve_name c = ''Anonymous'')"
proof -
  have "(1 < n \<and> n < 60) = (2 \<le> n \<and> n \<le> 59)" for n :: nat
    by arith
  then show ?thesis
    by (auto simp: resolve_name_def Let_def split: option.splits)
qed

theorem author_name_from_first_link_witness:
  "nameEl card_jane = None \<and> firstLink card_jane = Some '' Jane D. ''
   \<and> resolve_name card_jane = ''Jane D.''
   \<and> nameEl card_long_link = None \<and> length (trim link_of_60) = 60
   \<and> resolve_name card_long_link = ''Anonymous''"
proof -
  have 1: "nameEl card_jane = None" and 2: "nameEl card_long_link = None"
    by (simp_all add: card_jane_def card_long_link_def extract_defs)
  have 3: "trim '' Jane D. '' = ''Jane D.''"
    by (simp add: trim_def is_space_def)
  have 4: "length (trim link_of_60) = 60"
    by (simp add: trim_def is_space_def link_of_60_def)
  have 5: "firstLink card_jane = Some '' Jane D. ''" "firstLink card_long_link = Some link_of_60"
    by (simp_all add: card_jane_def card_long_link_def blank_card_def)
  from author_name_from_first_link [of card_jane] author_name_from_first_link [of card_long_link]
    1 2 3 4 5
  show ?thesis
    by simp
qed

text \<open>
  Claim C9 as stated fails at the upper end of its range: a link text of 60 code units
  is not used.
\<close>

theorem link_of_sixty_units_rejected_counterexample:
  "nameEl card_long_link = None \<and> firstLink card_long_link = Some link_of_60
   \<and> length link_of_60 = 60 \<and> resolve_name card_long_link = ''Anonymous''"
  by (simp add: card_long_link_def link_of_60_def extract_defs)

text \<open>
  Claim C10. Every review of the accumulated collection of a session, which is what
  is handed to the sink, has \<^verbatim>\<open>reviewUrl\<close> null, \<^verbatim>\<open>language\<close> \<^verbatim>\<open>en\<close> and
  \<^verbatim>\<open>reviewOrigin\<close> \<^verbatim>\<open>Google\<close>, in both scripts.
\<close>

theorem pushed_reviews_constant_fields:
  "\<forall>r \<in> set (collectedReviews (session sc tz maxItems visits)).
     reviewUrl r = None \<and> language r = ''en'' \<and> reviewOrigin r = ''Google''"
proof -
  have "constants_attached (session sc tz maxItems visits)"
  proof (rule session_preserves [where P = constants_attached])
    show "constants_attached initial_state"
      by (simp add: constants_attached_def initial_state_def)
  qed (rule offer_constants_attached)
  then show ?thesis by (simp add: constants_attached_def)
qed

theorem pushed_reviews_constant_fields_witness:
  "collectedReviews (session MainScript utc_zone 5 [demo_visit]) = [demo_review]
   \<and> reviewUrl demo_review = None \<and> language demo_review = ''en''
   \<and> reviewOrigin demo_review = ''Google''"
  using pushed_reviews_constant_fields [of MainScript utc_zone 5 "[demo_visit]"] demo_session
  by (simp add: demo_state_def)

end
